theory Spec2Isabelle
  imports Main
begin

section \<open>Python values shared by the scripts\<close>

text \<open>
  Exceptions that the modelled code can raise. \<open>BaseException\<close> stands for the
  exceptions that are not subclasses of \<open>Exception\<close> (an interrupt, a system exit):
  \<open>except Exception\<close> does not catch them.
\<close>

datatype py_error =
    AttributeError
  | KeyError
  | TypeError
  | IndexError
  | FileNotFoundError
  | JSONDecodeError
  | BaseException string

text \<open>
  A row of a scraped table maps a column name to the \<open>str()\<close> rendering of its cell;
  a dataframe is the list of its rows, and \<open>pd.DataFrame()\<close> is the empty list.
\<close>

type_synonym row = "(string \<times> string) list"
type_synonym dataframe = "row list"

section \<open>Fetch with retry (scripts/fbrefscraper.py, scripts/multi\_league\_scraper.py)\<close>

text \<open>
  What one call of the acquisition function (\<open>get_table_as_df\<close>; in
  \<open>scrape_league\<close> followed by \<open>filter_players_from_df\<close> inside the same \<open>try\<close>)
  does: it returns a table, raises an \<open>Exception\<close>, or raises something that is not an
  \<open>Exception\<close>.
\<close>

datatype outcome =
    Returns dataframe
  | Raises_Exception string
  | Raises_BaseException string

text \<open>
  The browser and the remote site are the world: the acquisition function is a function of
  the number of calls made so far, the URL and the table id. The state of a run counts the
  calls, lists the durations passed to \<open>time.sleep\<close> by the loops themselves, and holds
  the dictionary \<open>dataframes\<close>.
\<close>

type_synonym acquisition = "nat \<Rightarrow> string \<Rightarrow> string \<Rightarrow> outcome"

record scrape_state =
  calls :: nat
  sleeps :: "nat list"
  dataframes :: "string \<rightharpoonup> dataframe"

definition MAX_RETRIES :: nat where
  "MAX_RETRIES = 3"

definition RETRY_DELAY :: nat where
  "RETRY_DELAY = 5"

text \<open>
  The body of \<open>for attempt in range(max_retries)\<close>, over the attempts still to run.
  A successful call stores the table and breaks; a failed one stores the empty table when
  \<open>attempt + 1 == max_retries\<close> and sleeps otherwise.
\<close>

fun retry_attempts ::
  "acquisition \<Rightarrow> nat \<Rightarrow> nat \<Rightarrow> string \<Rightarrow> string \<Rightarrow> string \<Rightarrow> nat list \<Rightarrow> scrape_state
    \<Rightarrow> py_error + scrape_state" where
  "retry_attempts get mx delay stat_type url table_id [] st = Inr st"
| "retry_attempts get mx delay stat_type url table_id (attempt # rest) st =
     (case get (calls st) url table_id of
        Returns df \<Rightarrow>
          Inr (st\<lparr>calls := Suc (calls st), dataframes := (dataframes st)(stat_type \<mapsto> df)\<rparr>)
      | Raises_Exception e \<Rightarrow>
          (if attempt + 1 = mx
           then retry_attempts get mx delay stat_type url table_id rest
                  (st\<lparr>calls := Suc (calls st),
                      dataframes := (dataframes st)(stat_type \<mapsto> [])\<rparr>)
           else retry_attempts get mx delay stat_type url table_id rest
                  (st\<lparr>calls := Suc (calls st), sleeps := sleeps st @ [delay]\<rparr>))
      | Raises_BaseException e \<Rightarrow> Inl (BaseException e))"

definition fetch_with_retry ::
  "acquisition \<Rightarrow> nat \<Rightarrow> nat \<Rightarrow> string \<Rightarrow> string \<Rightarrow> string \<Rightarrow> scrape_state
    \<Rightarrow> py_error + scrape_state" where
  "fetch_with_retry get mx delay stat_type url table_id st =
     retry_attempts get mx delay stat_type url table_id [0..<mx] st"

text \<open>
  The loop over the sources: \<open>for stat_type, url in urls.items()\<close>, with
  \<open>table_ids[stat_type]\<close> (a \<open>KeyError\<close> when absent), the retry loop and the pause
  \<open>time.sleep(2)\<close> after each source.
\<close>

fun scrape_sources ::
  "acquisition \<Rightarrow> nat \<Rightarrow> nat \<Rightarrow> (string \<rightharpoonup> string) \<Rightarrow> (string \<times> string) list \<Rightarrow> scrape_state
    \<Rightarrow> py_error + scrape_state" where
  "scrape_sources get mx delay table_ids [] st = Inr st"
| "scrape_sources get mx delay table_ids ((stat_type, url) # rest) st =
     (case table_ids stat_type of
        None \<Rightarrow> Inl KeyError
      | Some table_id \<Rightarrow>
          (case fetch_with_retry get mx delay stat_type url table_id st of
             Inl err \<Rightarrow> Inl err
           | Inr st1 \<Rightarrow>
               scrape_sources get mx delay table_ids rest (st1\<lparr>sleeps := sleeps st1 @ [2]\<rparr>)))"

text \<open>Two acquisition functions and a starting state, for concrete runs.\<close>

definition always_timeout :: acquisition where
  "always_timeout n url table_id = Raises_Exception ''timeout''"

definition state0 :: scrape_state where
  "state0 = \<lparr>calls = 0, sleeps = [], dataframes = Map.empty\<rparr>"

definition third_time_lucky :: acquisition where
  "third_time_lucky n url table_id =
     (if n < 2 then Raises_Exception ''timeout'' else Returns [[(''Player'', ''A'')]])"

section \<open>Python strings\<close>

text \<open>
  A Python \<open>str\<close> is a sequence of code points; it is modelled as a \<open>string\<close> whose
  characters are the code points U+0000 to U+00FF, which hold every character that the
  scripts name. \<open>py_isspace\<close> is the whitespace test of \<open>str.strip\<close> and of \<open>\s\<close> in
  \<open>re\<close> on that range: U+0009 to U+000D, U+001C to U+0020, U+0085 and U+00A0.
\<close>

definition py_isspace :: "char \<Rightarrow> bool" where
  "py_isspace c =
     (let n = (of_char c :: nat)
      in (9 \<le> n \<and> n \<le> 13) \<or> (28 \<le> n \<and> n \<le> 32) \<or> n = 133 \<or> n = 160)"

definition py_strip :: "string \<Rightarrow> string" where
  "py_strip s = rev (dropWhile py_isspace (rev (dropWhile py_isspace s)))"

text \<open>
  \<open>str.lower\<close> on the same range: A to Z, and U+00C0 to U+00DE except the
  multiplication sign U+00D7, move up by 32.
\<close>

definition py_lower_char :: "char \<Rightarrow> char" where
  "py_lower_char c =
     (let n = (of_char c :: nat)
      in if (65 \<le> n \<and> n \<le> 90) \<or> (192 \<le> n \<and> n \<le> 214) \<or> (216 \<le> n \<and> n \<le> 222)
         then char_of (n + 32) else c)"

definition py_lower :: "string \<Rightarrow> string" where
  "py_lower s = map py_lower_char s"

section \<open>JSON values and files (import\_collected\_stats.py)\<close>

text \<open>
  What \<open>json.load\<close> returns. A dictionary is the list of its items in insertion order,
  with distinct keys. Numbers are the integers; floating point numbers are left out.
\<close>

datatype json =
    JNull
  | JBool bool
  | JInt int
  | JStr string
  | JList "json list"
  | JDict "(string \<times> json) list"

text \<open>
  A file holds JSON text, modelled by the value it parses to, or text that
  \<open>json.load\<close> rejects. The file system maps a path to the file there.
\<close>

datatype file_content = Json json | Not_json

type_synonym files = "string \<rightharpoonup> file_content"

text \<open>The lines printed by the import utility, with the values they interpolate.\<close>

datatype message =
    Error_reading_file
  | Must_contain_list
  | Entry_not_object nat
  | Entry_missing_field nat string
  | Entry_empty_name nat
  | File_valid nat
  | Stats_file_not_found string
  | Importing_header
  | Separator
  | Skipping_no_name
  | Updated string
  | Change string json json
  | More_changes nat
  | No_changes_needed string
  | Player_not_found string
  | Import_summary
  | Players_updated nat
  | Players_not_found nat
  | Backed_up_to string
  | Saved_to string
  | No_updates_made
  | Sample_created
  | Usage
  | Provide_file_to_validate
  | Provide_file_to_import
  | Unknown_command string

subsection \<open>validate\_stats\_file\<close>

definition required_fields :: "string list" where
  "required_fields = [''name'', ''minutes'', ''goals'', ''assists'']"

text \<open>\<open>for field in required_fields: if field not in player: ...\<close>: the first field missing.\<close>

fun first_missing :: "string list \<Rightarrow> (string \<times> json) list \<Rightarrow> string option" where
  "first_missing [] player = None"
| "first_missing (field # others) player =
     (if map_of player field = None then Some field else first_missing others player)"

text \<open>
  The body of the loop over the entries, for the entry at index \<open>i\<close>: \<open>Inr (Some m)\<close>
  prints \<open>m\<close> and returns \<open>False\<close>, \<open>Inr None\<close> goes on to the next entry, and
  \<open>Inl\<close> is the exception raised. \<open>player['name'].strip()\<close> raises
  \<open>AttributeError\<close> when the name is not a string.
\<close>

fun check_entry :: "nat \<Rightarrow> json \<Rightarrow> py_error + message option" where
  "check_entry i (JDict player) =
     (case first_missing required_fields player of
        Some field \<Rightarrow> Inr (Some (Entry_missing_field (i + 1) field))
      | None \<Rightarrow>
          (case map_of player ''name'' of
             None \<Rightarrow> Inl KeyError
           | Some (JStr name) \<Rightarrow>
               (if py_strip name = [] then Inr (Some (Entry_empty_name (i + 1))) else Inr None)
           | Some _ \<Rightarrow> Inl AttributeError))"
| "check_entry i _ = Inr (Some (Entry_not_object (i + 1)))"

fun validate_entries :: "nat \<Rightarrow> json list \<Rightarrow> py_error + message option" where
  "validate_entries i [] = Inr None"
| "validate_entries i (player # rest) =
     (case check_entry i player of
        Inl err \<Rightarrow> Inl err
      | Inr (Some m) \<Rightarrow> Inr (Some m)
      | Inr None \<Rightarrow> validate_entries (i + 1) rest)"

text \<open>
  \<open>validate_stats_file\<close> returns its boolean and the lines it printed, or raises.
  A file that is missing or does not parse is caught by \<open>except Exception\<close>.
\<close>

definition validate_stats_file :: "files \<Rightarrow> string \<Rightarrow> py_error + (bool \<times> message list)" where
  "validate_stats_file fs stats_file =
     (case fs stats_file of
        None \<Rightarrow> Inr (False, [Error_reading_file])
      | Some Not_json \<Rightarrow> Inr (False, [Error_reading_file])
      | Some (Json (JList data)) \<Rightarrow>
          (case validate_entries 0 data of
             Inl err \<Rightarrow> Inl err
           | Inr (Some m) \<Rightarrow> Inr (False, [m])
           | Inr None \<Rightarrow> Inr (True, [File_valid (length data)]))
      | Some (Json _) \<Rightarrow> Inr (False, [Must_contain_list]))"

subsection \<open>import\_player\_stats\<close>

text \<open>
  Python's \<open>==\<close> on loaded JSON values: a boolean compares as the integer 0 or 1,
  lists compare item by item, dictionaries compare as sets of items, and values of
  different kinds are unequal.
\<close>

fun py_eq :: "json \<Rightarrow> json \<Rightarrow> bool"
  and py_eq_list :: "json list \<Rightarrow> json list \<Rightarrow> bool"
  and py_eq_items :: "(string \<times> json) list \<Rightarrow> (string \<times> json) list \<Rightarrow> bool"
  and py_eq_at :: "json \<Rightarrow> string \<Rightarrow> (string \<times> json) list \<Rightarrow> bool" where
  "py_eq JNull JNull = True"
| "py_eq (JBool a) (JBool b) = (a = b)"
| "py_eq (JBool a) (JInt b) = ((if a then 1 else 0) = b)"
| "py_eq (JInt a) (JBool b) = (a = (if b then 1 else 0))"
| "py_eq (JInt a) (JInt b) = (a = b)"
| "py_eq (JStr a) (JStr b) = (a = b)"
| "py_eq (JList a) (JList b) = py_eq_list a b"
| "py_eq (JDict a) (JDict b) = (length a = length b \<and> py_eq_items a b)"
| "py_eq _ _ = False"
| "py_eq_list [] [] = True"
| "py_eq_list (x # xs) (y # ys) = (py_eq x y \<and> py_eq_list xs ys)"
| "py_eq_list _ _ = False"
| "py_eq_items [] b = True"
| "py_eq_items ((k, v) # a) b = (py_eq_at v k b \<and> py_eq_items a b)"
| "py_eq_at v k [] = False"
| "py_eq_at v k ((k', w) # b) = (if k' = k then py_eq v w else py_eq_at v k b)"

definition stats_to_update :: "string list" where
  "stats_to_update =
     [''minutes'', ''goals'', ''assists'', ''assistsSecond'',
      ''shotsOnTarget'', ''shots'', ''keyPasses'', ''tacklesWon'',
      ''interceptions'', ''clearances'', ''blockedShots'', ''aerialsWon'',
      ''saves'', ''cleanSheets'', ''goalsConceded'', ''pkSaves'',
      ''yellowCards'', ''redCards'']"

text \<open>\<open>d.get(k, default)\<close> and \<open>d[k] = v\<close>: a new key goes to the end.\<close>

definition dict_get :: "(string \<times> json) list \<Rightarrow> string \<Rightarrow> json \<Rightarrow> json" where
  "dict_get d k dflt = (case map_of d k of None \<Rightarrow> dflt | Some v \<Rightarrow> v)"

fun dict_set :: "(string \<times> json) list \<Rightarrow> string \<Rightarrow> json \<Rightarrow> (string \<times> json) list" where
  "dict_set [] k v = [(k, v)]"
| "dict_set ((k', v') # d) k v = (if k' = k then (k, v) # d else (k', v') # dict_set d k v)"

text \<open>
  \<open>for stat in stats_to_update\<close>: a stat present in the update whose value differs from
  \<open>original_player.get(stat, 0)\<close> is written and the change recorded.
\<close>

fun update_stats ::
  "string list \<Rightarrow> (string \<times> json) list \<Rightarrow> (string \<times> json) list \<Rightarrow> message list
    \<Rightarrow> (string \<times> json) list \<times> message list" where
  "update_stats [] player_stats original_player changes = (original_player, changes)"
| "update_stats (stat # rest) player_stats original_player changes =
     (case map_of player_stats stat of
        None \<Rightarrow> update_stats rest player_stats original_player changes
      | Some new_value \<Rightarrow>
          (if \<not> py_eq new_value (dict_get original_player stat (JInt 0))
           then update_stats rest player_stats (dict_set original_player stat new_value)
                  (changes @ [Change stat (dict_get original_player stat (JInt 0)) new_value])
           else update_stats rest player_stats original_player changes))"

text \<open>
  What a \<open>for\<close> loop iterates over: the items of a list, the keys of a dictionary, the
  characters of a string; anything else raises \<open>TypeError\<close>.
\<close>

fun py_iter :: "json \<Rightarrow> py_error + json list" where
  "py_iter (JList xs) = Inr xs"
| "py_iter (JDict d) = Inr (map (\<lambda>kv. JStr (fst kv)) d)"
| "py_iter (JStr s) = Inr (map (\<lambda>c. JStr [c]) s)"
| "py_iter _ = Inl TypeError"

text \<open>
  \<open>{player['name']: i for i, player in enumerate(fpl_data)}\<close>. Only a string is ever
  looked up, so the model keeps the entries whose name is a string; a later entry
  replaces an earlier one of the same name. Subscripting something that is not a
  dictionary and an unhashable name raise \<open>TypeError\<close>, a missing name \<open>KeyError\<close>.
\<close>

fun build_player_dict ::
  "nat \<Rightarrow> json list \<Rightarrow> (string \<rightharpoonup> nat) \<Rightarrow> py_error + (string \<rightharpoonup> nat)" where
  "build_player_dict i [] player_dict = Inr player_dict"
| "build_player_dict i (JDict player # rest) player_dict =
     (case map_of player ''name'' of
        None \<Rightarrow> Inl KeyError
      | Some (JStr name) \<Rightarrow> build_player_dict (i + 1) rest (player_dict(name \<mapsto> i))
      | Some (JList _) \<Rightarrow> Inl TypeError
      | Some (JDict _) \<Rightarrow> Inl TypeError
      | Some _ \<Rightarrow> build_player_dict (i + 1) rest player_dict)"
| "build_player_dict i (_ # rest) player_dict = Inl TypeError"

record import_state =
  fpl_data :: "json list"
  updated_count :: nat
  not_found_count :: nat
  printed :: "message list"

text \<open>
  The body of \<open>for player_stats in collected_stats\<close>. \<open>player_stats.get\<close> raises
  \<open>AttributeError\<close> on anything but a dictionary, and so does \<open>.strip()\<close> on a name
  that is not a string.
\<close>

fun import_entry :: "(string \<rightharpoonup> nat) \<Rightarrow> json \<Rightarrow> import_state \<Rightarrow> py_error + import_state" where
  "import_entry player_dict (JDict player_stats) st =
     (case dict_get player_stats ''name'' (JStr []) of
        JStr raw_name \<Rightarrow>
          (let player_name = py_strip raw_name in
           if player_name = []
           then Inr (st\<lparr>printed := printed st @ [Skipping_no_name]\<rparr>)
           else
             (case player_dict player_name of
                Some player_index \<Rightarrow>
                  (if player_index < length (fpl_data st)
                   then
                     (case fpl_data st ! player_index of
                        JDict original_player \<Rightarrow>
                          (case update_stats stats_to_update player_stats original_player [] of
                             (updated, changes) \<Rightarrow>
                               (if changes \<noteq> []
                                then Inr (st\<lparr>fpl_data :=
                                             (fpl_data st)[player_index := JDict updated],
                                           updated_count := updated_count st + 1,
                                           printed := printed st @ [Updated player_name]
                                             @ take 3 changes
                                             @ (if length changes > 3
                                                then [More_changes (length changes - 3)]
                                                else [])\<rparr>)
                                else Inr (st\<lparr>printed :=
                                             printed st @ [No_changes_needed player_name]\<rparr>)))
                      | _ \<Rightarrow> Inl TypeError)
                   else Inl IndexError)
              | None \<Rightarrow>
                  Inr (st\<lparr>not_found_count := not_found_count st + 1,
                          printed := printed st @ [Player_not_found player_name]\<rparr>)))
      | _ \<Rightarrow> Inl AttributeError)"
| "import_entry player_dict _ st = Inl AttributeError"

fun import_entries ::
  "(string \<rightharpoonup> nat) \<Rightarrow> json list \<Rightarrow> import_state \<Rightarrow> py_error + import_state" where
  "import_entries player_dict [] st = Inr st"
| "import_entries player_dict (player_stats # rest) st =
     (case import_entry player_dict player_stats st of
        Inl err \<Rightarrow> Inl err
      | Inr st1 \<Rightarrow> import_entries player_dict rest st1)"

text \<open>
  \<open>datetime.now().strftime('%Y%m%d-%H%M%S')\<close>: the clock is an argument, and the
  stamp is its fields in decimal, padded with zeros to four and two digits.
\<close>

record datetime =
  year :: nat
  month :: nat
  day :: nat
  hour :: nat
  minute :: nat
  second :: nat

definition digit_char :: "nat \<Rightarrow> char" where
  "digit_char n = char_of (48 + n mod 10)"

definition pad2 :: "nat \<Rightarrow> string" where
  "pad2 n = [digit_char (n div 10), digit_char n]"

definition pad4 :: "nat \<Rightarrow> string" where
  "pad4 n = [digit_char (n div 1000), digit_char (n div 100), digit_char (n div 10), digit_char n]"

definition strftime :: "datetime \<Rightarrow> string" where
  "strftime now =
     pad4 (year now) @ pad2 (month now) @ pad2 (day now) @ ''-''
       @ pad2 (hour now) @ pad2 (minute now) @ pad2 (second now)"

definition dataset_path :: string where
  "dataset_path = ''public/fpl-data.json''"

text \<open>
  The first part of \<open>import_player_stats\<close>, up to the end of the loop over the collected
  stats: it raises, returns early because the stats file does not exist, or reaches the
  summary with the loaded dataset and the state of the merge.
\<close>

datatype merge_outcome = Stats_missing | Merged json import_state

definition merge_updates :: "files \<Rightarrow> string \<Rightarrow> py_error + merge_outcome" where
  "merge_updates fs stats_file =
     (case fs dataset_path of
        None \<Rightarrow> Inl FileNotFoundError
      | Some Not_json \<Rightarrow> Inl JSONDecodeError
      | Some (Json fpl) \<Rightarrow>
          (case fs stats_file of
             None \<Rightarrow> Inr Stats_missing
           | Some Not_json \<Rightarrow> Inl JSONDecodeError
           | Some (Json collected_stats) \<Rightarrow>
               (case py_iter fpl of
                  Inl err \<Rightarrow> Inl err
                | Inr players \<Rightarrow>
                    (case build_player_dict 0 players Map.empty of
                       Inl err \<Rightarrow> Inl err
                     | Inr player_dict \<Rightarrow>
                         (case py_iter collected_stats of
                            Inl err \<Rightarrow> Inl err
                          | Inr updates \<Rightarrow>
                              (case import_entries player_dict updates
                                      \<lparr>fpl_data = players, updated_count = 0,
                                       not_found_count = 0,
                                       printed = [Importing_header, Separator]\<rparr> of
                                 Inl err \<Rightarrow> Inl err
                               | Inr st \<Rightarrow> Inr (Merged fpl st)))))))"

text \<open>
  \<open>import_player_stats\<close> returns its boolean, the file system it leaves and the lines it
  printed, or raises. After the summary, \<open>os.rename\<close> moves the dataset to the backup
  path, replacing a file already there, and the updated list is written to the dataset
  path; with no update counted, nothing is renamed or written.
\<close>

definition backup_filename :: "datetime \<Rightarrow> string" where
  "backup_filename now = ''fpl-data-backup-'' @ strftime now @ ''.json''"

definition import_player_stats ::
  "files \<Rightarrow> datetime \<Rightarrow> string \<Rightarrow> py_error + (bool \<times> files \<times> message list)" where
  "import_player_stats fs now stats_file =
     (case merge_updates fs stats_file of
        Inl err \<Rightarrow> Inl err
      | Inr Stats_missing \<Rightarrow> Inr (False, fs, [Stats_file_not_found stats_file])
      | Inr (Merged fpl st) \<Rightarrow>
          (let summary = printed st @
                 [Separator, Import_summary,
                  Players_updated (updated_count st),
                  Players_not_found (not_found_count st)]
           in if updated_count st > 0
              then
                (let fs1 = (fs(''public/'' @ backup_filename now \<mapsto> Json fpl))
                             (dataset_path := None);
                     fs2 = fs1(dataset_path \<mapsto> Json (JList (fpl_data st)))
                 in Inr (True, fs2,
                         summary @ [Backed_up_to (backup_filename now),
                                    Saved_to ''fpl-data.json'']))
              else Inr (False, fs, summary @ [No_updates_made])))"

subsection \<open>The command line\<close>

definition sample_data :: json where
  "sample_data = JList [JDict
     [(''name'', JStr ''Martin Zubimendi''), (''team'', JStr ''ARS''), (''position'', JStr ''M''),
      (''minutes'', JInt 2430), (''goals'', JInt 3), (''assists'', JInt 5),
      (''assistsSecond'', JInt 2), (''shotsOnTarget'', JInt 15), (''shots'', JInt 45),
      (''keyPasses'', JInt 67), (''tacklesWon'', JInt 89), (''interceptions'', JInt 56),
      (''clearances'', JInt 23), (''blockedShots'', JInt 12), (''aerialsWon'', JInt 34),
      (''saves'', JInt 0), (''cleanSheets'', JInt 0), (''goalsConceded'', JInt 0),
      (''pkSaves'', JInt 0), (''yellowCards'', JInt 4), (''redCards'', JInt 0),
      (''previous_club'', JStr ''Real Sociedad''), (''previous_league'', JStr ''La Liga''),
      (''data_source'', JStr ''FBref 2024-25''), (''collection_date'', JStr ''2025-01-16''),
      (''notes'', JStr ''All competitions combined'')]]"

text \<open>
  The \<open>__main__\<close> block, from \<open>sys.argv\<close>: it returns the file system it leaves and the
  lines printed, or raises. \<open>import\<close> merges only when the validation returned \<open>True\<close>.
\<close>

definition main :: "files \<Rightarrow> datetime \<Rightarrow> string list \<Rightarrow> py_error + (files \<times> message list)" where
  "main fs now argv =
     (if length argv < 2 then Inr (fs, [Usage])
      else
        (let command = py_lower (argv ! 1) in
         if command = ''sample''
         then Inr (fs(''collected_stats_sample.json'' \<mapsto> Json sample_data), [Sample_created])
         else if command = ''validate''
         then
           (if length argv < 3 then Inr (fs, [Provide_file_to_validate])
            else
              (case validate_stats_file fs (argv ! 2) of
                 Inl err \<Rightarrow> Inl err
               | Inr (ok, out) \<Rightarrow> Inr (fs, out)))
         else if command = ''import''
         then
           (if length argv < 3 then Inr (fs, [Provide_file_to_import])
            else
              (case validate_stats_file fs (argv ! 2) of
                 Inl err \<Rightarrow> Inl err
               | Inr (ok, out) \<Rightarrow>
                   (if ok
                    then
                      (case import_player_stats fs now (argv ! 2) of
                         Inl err \<Rightarrow> Inl err
                       | Inr (result, fs', out') \<Rightarrow> Inr (fs', out @ out'))
                    else Inr (fs, out))))
         else Inr (fs, [Unknown_command command])))"

subsection \<open>Concrete inputs of the import utility\<close>

definition entry_ok :: json where
  "entry_ok = JDict [(''name'', JStr ''A''), (''minutes'', JInt 90), (''goals'', JInt 1),
                     (''assists'', JInt 0)]"

definition entry_no_assists :: json where
  "entry_no_assists = JDict [(''name'', JStr ''B''), (''minutes'', JInt 90), (''goals'', JInt 1)]"

definition entry_no_minutes :: json where
  "entry_no_minutes = JDict [(''name'', JStr ''A''), (''goals'', JInt 1), (''assists'', JInt 0)]"

definition entry_numeric_name :: json where
  "entry_numeric_name = JDict [(''name'', JInt 7), (''minutes'', JInt 90), (''goals'', JInt 1),
                               (''assists'', JInt 0)]"

definition stats_only :: "json list \<Rightarrow> files" where
  "stats_only data = [''stats.json'' \<mapsto> Json (JList data)]"

definition clock :: datetime where
  "clock = \<lparr>year = 2025, month = 1, day = 16, hour = 9, minute = 30, second = 5\<rparr>"

definition script :: string where
  "script = ''import_collected_stats.py''"

subsection \<open>Notions used to state the properties of the merge\<close>

text \<open>
  The test of the inner loop,
  \<open>stat in player_stats and player_stats[stat] != original_player.get(stat, 0)\<close>.
\<close>

definition stat_differs ::
  "(string \<times> json) list \<Rightarrow> (string \<times> json) list \<Rightarrow> string \<Rightarrow> bool" where
  "stat_differs player_stats original_player stat =
     (case map_of player_stats stat of
        None \<Rightarrow> False
      | Some new_value \<Rightarrow> \<not> py_eq new_value (dict_get original_player stat (JInt 0)))"

text \<open>The changes that one update makes to one record, in the order of \<open>stats_to_update\<close>.\<close>

definition changes_of :: "(string \<times> json) list \<Rightarrow> (string \<times> json) list \<Rightarrow> message list" where
  "changes_of player_stats original_player =
     map (\<lambda>stat. Change stat (dict_get original_player stat (JInt 0))
                         (dict_get player_stats stat JNull))
       (filter (stat_differs player_stats original_player) stats_to_update)"

text \<open>A record of the dataset whose \<open>name\<close> is the given string.\<close>

fun has_name :: "string \<Rightarrow> json \<Rightarrow> bool" where
  "has_name name (JDict player) = (map_of player ''name'' = Some (JStr name))"
| "has_name name _ = False"

text \<open>What the lookup dictionary reads of a record: its \<open>name\<close>, when it is an object.\<close>

fun name_key :: "json \<Rightarrow> json option option" where
  "name_key (JDict player) = Some (map_of player ''name'')"
| "name_key _ = None"

text \<open>The datasets and updates of the examples.\<close>

definition record_A :: "int \<Rightarrow> json" where
  "record_A goals = JDict [(''name'', JStr ''A''), (''goals'', JInt goals)]"

definition record_B :: "int \<Rightarrow> json" where
  "record_B goals = JDict [(''name'', JStr ''B''), (''goals'', JInt goals)]"

definition dataset_and_stats :: "json list \<Rightarrow> json list \<Rightarrow> files" where
  "dataset_and_stats current updates =
     [dataset_path \<mapsto> Json (JList current), ''stats.json'' \<mapsto> Json (JList updates)]"

definition merge_start :: "json list \<Rightarrow> import_state" where
  "merge_start current =
     \<lparr>fpl_data = current, updated_count = 0, not_found_count = 0,
      printed = [Importing_header, Separator]\<rparr>"

section \<open>The fuzzy matcher (scripts/targeted\_player\_scraper.py)\<close>

subsection \<open>normalize\_name\<close>

text \<open>
  \<open>\w\<close> in \<open>re\<close> on a \<open>str\<close> pattern is an alphanumeric character or the underscore.
  On U+0000 to U+00FF the alphanumeric characters are the ASCII digits and letters, the
  ordinal indicators U+00AA and U+00BA, the superscript digits U+00B2, U+00B3 and U+00B9,
  the micro sign U+00B5, the fractions U+00BC to U+00BE, and the letters U+00C0 to U+00FF
  except the multiplication sign U+00D7 and the division sign U+00F7.
\<close>

definition py_isword :: "char \<Rightarrow> bool" where
  "py_isword c =
     (let n = (of_char c :: nat)
      in (48 \<le> n \<and> n \<le> 57) \<or> (65 \<le> n \<and> n \<le> 90) \<or> n = 95 \<or> (97 \<le> n \<and> n \<le> 122)
         \<or> n = 170 \<or> n = 178 \<or> n = 179 \<or> n = 181 \<or> n = 185 \<or> n = 186
         \<or> (188 \<le> n \<and> n \<le> 190) \<or> (192 \<le> n \<and> n \<le> 214) \<or> (216 \<le> n \<and> n \<le> 246)
         \<or> (248 \<le> n \<and> n \<le> 255))"

text \<open>\<open>re.sub('[...]', repl, s)\<close> for a class of single characters.\<close>

definition re_sub_class :: "char list \<Rightarrow> char \<Rightarrow> string \<Rightarrow> string" where
  "re_sub_class cls repl s = map (\<lambda>c. if c \<in> set cls then repl else c) s"

text \<open>\<open>re.sub(r'[^\w\s]', ' ', s)\<close>.\<close>

definition re_sub_punctuation :: "string \<Rightarrow> string" where
  "re_sub_punctuation s =
     map (\<lambda>c. if \<not> py_isword c \<and> \<not> py_isspace c then CHR '' '' else c) s"

text \<open>\<open>re.sub(r'\s+', ' ', s)\<close>: every maximal run of whitespace becomes one space.\<close>

function re_sub_spaces :: "string \<Rightarrow> string" where
  "re_sub_spaces [] = []"
| "re_sub_spaces (c # cs) =
     (if py_isspace c then CHR '' '' # re_sub_spaces (dropWhile py_isspace cs)
      else c # re_sub_spaces cs)"
  by pat_completeness auto
termination
  by (relation "measure length") (auto simp: le_imp_less_Suc length_dropWhile_le)

text \<open>
  The accented letters of the seven classes, by code point: U+00E0 to U+00E5 for \<open>a\<close>,
  U+00E8 to U+00EB for \<open>e\<close>, U+00EC to U+00EF for \<open>i\<close>, U+00F2 to U+00F6 and U+00F8
  for \<open>o\<close>, U+00F9 to U+00FC for \<open>u\<close>, U+00F1 for \<open>n\<close> and U+00E7 for \<open>c\<close>.
\<close>

definition normalize_name :: "string \<Rightarrow> string" where
  "normalize_name name =
     (if name = [] then []
      else
        (let normalized = py_strip (py_lower name);
             normalized = re_sub_class
               [CHR 0xE0, CHR 0xE1, CHR 0xE2, CHR 0xE3, CHR 0xE4, CHR 0xE5] CHR ''a'' normalized;
             normalized = re_sub_class [CHR 0xE8, CHR 0xE9, CHR 0xEA, CHR 0xEB] CHR ''e'' normalized;
             normalized = re_sub_class [CHR 0xEC, CHR 0xED, CHR 0xEE, CHR 0xEF] CHR ''i'' normalized;
             normalized = re_sub_class
               [CHR 0xF2, CHR 0xF3, CHR 0xF4, CHR 0xF5, CHR 0xF6, CHR 0xF8] CHR ''o'' normalized;
             normalized = re_sub_class [CHR 0xF9, CHR 0xFA, CHR 0xFB, CHR 0xFC] CHR ''u'' normalized;
             normalized = re_sub_class [CHR 0xF1] CHR ''n'' normalized;
             normalized = re_sub_class [CHR 0xE7] CHR ''c'' normalized;
             normalized = re_sub_punctuation normalized;
             normalized = re_sub_spaces normalized
         in py_strip normalized))"

subsection \<open>find\_players\_with\_debug\<close>

text \<open>The substring test \<open>a in b\<close> on strings.\<close>

fun py_in :: "string \<Rightarrow> string \<Rightarrow> bool" where
  "py_in a [] = (a = [])"
| "py_in a (c # cs) = (take (length a) (c # cs) = a \<or> py_in a cs)"

record target =
  primary_name :: string
  alt_names :: "string list"
  club :: string
  alt_clubs :: "string list"

text \<open>
  The frame that the matcher scans has column labels and rows of cells, every row with
  one cell for each column; a cell is given by its \<open>str()\<close> rendering, so that a cell
  holding pandas' missing value reads \<open>nan\<close>. \<open>df.empty\<close> holds when the frame has no
  column or no row. \<open>df.iterrows()\<close> yields each row labelled by the columns.
\<close>

record frame =
  columns :: "string list"
  cells :: "string list list"

definition frame_empty :: "frame \<Rightarrow> bool" where
  "frame_empty df = (columns df = [] \<or> cells df = [])"

definition iterrows :: "frame \<Rightarrow> row list" where
  "iterrows df = map (zip (columns df)) (cells df)"

text \<open>\<open>str(row.get(column, ''))\<close>: a column that the frame lacks reads as the empty string.\<close>

definition row_get :: "row \<Rightarrow> string \<Rightarrow> string" where
  "row_get r column = (case map_of r column of None \<Rightarrow> [] | Some cell \<Rightarrow> cell)"

text \<open>
  The loop over the variants, with its \<open>break\<close>: the flag is set by the first variant that
  contains the normalized field or is contained in it.
\<close>

fun matches_any :: "string \<Rightarrow> string list \<Rightarrow> bool" where
  "matches_any norm_field [] = False"
| "matches_any norm_field (variant # rest) =
     (let norm_target = normalize_name variant
      in if py_in norm_target norm_field \<or> py_in norm_field norm_target then True
         else matches_any norm_field rest)"

definition name_matches :: "target \<Rightarrow> row \<Rightarrow> bool" where
  "name_matches t r =
     matches_any (normalize_name (row_get r ''Player'')) (primary_name t # alt_names t)"

definition club_matches :: "target \<Rightarrow> row \<Rightarrow> bool" where
  "club_matches t r =
     matches_any (normalize_name (row_get r ''Squad'')) (club t # alt_clubs t)"

text \<open>
  The scan of the rows for one target: the first row whose name and club both match is
  appended to \<open>found_players\<close> and the scan stops.
\<close>

fun find_row :: "target \<Rightarrow> row list \<Rightarrow> row option" where
  "find_row t [] = None"
| "find_row t (r # rest) =
     (if name_matches t r \<and> club_matches t r then Some r else find_row t rest)"

fun found_players :: "row list \<Rightarrow> target list \<Rightarrow> row list" where
  "found_players rows [] = []"
| "found_players rows (t # rest) =
     (case find_row t rows of
        None \<Rightarrow> found_players rows rest
      | Some r \<Rightarrow> r # found_players rows rest)"

text \<open>
  \<open>find_players_with_debug\<close> returns the rows found, one for each target that has one,
  in the order of the targets; an empty frame gives none.
\<close>

definition find_players_with_debug :: "frame \<Rightarrow> target list \<Rightarrow> row list" where
  "find_players_with_debug df target_players =
     (if frame_empty df then [] else found_players (iterrows df) target_players)"

text \<open>
  The example of two candidates sharing a substring, and a frame whose first row has an
  empty name and an empty club.
\<close>

definition wirtz :: target where
  "wirtz = \<lparr>primary_name = ''Florian Wirtz'', alt_names = [''Wirtz''],
            club = ''Bayer Leverkusen'', alt_clubs = [''Leverkusen'']\<rparr>"

definition row_wirtzmann :: row where
  "row_wirtzmann = [(''Player'', ''Wirtzmann''), (''Squad'', ''Leverkusen'')]"

definition row_wirtz :: row where
  "row_wirtz = [(''Player'', ''Wirtz''), (''Squad'', ''Leverkusen'')]"

definition row_other :: row where
  "row_other = [(''Player'', ''Xhaka''), (''Squad'', ''Leverkusen'')]"

definition wirtzmann_first :: frame where
  "wirtzmann_first =
     \<lparr>columns = [''Player'', ''Squad''],
      cells = [[''Wirtzmann'', ''Leverkusen''], [''Wirtz'', ''Leverkusen'']]\<rparr>"

definition wirtz_second :: frame where
  "wirtz_second =
     \<lparr>columns = [''Player'', ''Squad''],
      cells = [[''Xhaka'', ''Leverkusen''], [''Wirtz'', ''Leverkusen'']]\<rparr>"

definition row_blank :: row where
  "row_blank = [(''Player'', ''''), (''Squad'', ''''), (''Age'', ''21'')]"

definition blank_first :: frame where
  "blank_first =
     \<lparr>columns = [''Player'', ''Squad'', ''Age''],
      cells = [['''', '''', ''21''], [''Wirtz'', ''Leverkusen'', ''22'']]\<rparr>"

subsection \<open>Notions used to state the properties of the normalization\<close>

text \<open>
  What the seven class substitutions and the punctuation substitution do, in that order,
  to one character.
\<close>

definition norm_char :: "char \<Rightarrow> char" where
  "norm_char c =
     (let c = (if c \<in> set [CHR 0xE0, CHR 0xE1, CHR 0xE2, CHR 0xE3, CHR 0xE4, CHR 0xE5]
               then CHR ''a'' else c);
          c = (if c \<in> set [CHR 0xE8, CHR 0xE9, CHR 0xEA, CHR 0xEB] then CHR ''e'' else c);
          c = (if c \<in> set [CHR 0xEC, CHR 0xED, CHR 0xEE, CHR 0xEF] then CHR ''i'' else c);
          c = (if c \<in> set [CHR 0xF2, CHR 0xF3, CHR 0xF4, CHR 0xF5, CHR 0xF6, CHR 0xF8]
               then CHR ''o'' else c);
          c = (if c \<in> set [CHR 0xF9, CHR 0xFA, CHR 0xFB, CHR 0xFC] then CHR ''u'' else c);
          c = (if c \<in> set [CHR 0xF1] then CHR ''n'' else c);
          c = (if c \<in> set [CHR 0xE7] then CHR ''c'' else c)
      in if \<not> py_isword c \<and> \<not> py_isspace c then CHR '' '' else c)"

text \<open>
  A string whose only whitespace is the space character, with no two whitespace
  characters in a row.
\<close>

fun single_spaced :: "string \<Rightarrow> bool" where
  "single_spaced [] = True"
| "single_spaced (c # cs) =
     ((py_isspace c \<longrightarrow> c = CHR '' '' \<and> (case cs of [] \<Rightarrow> True | d # _ \<Rightarrow> \<not> py_isspace d))
      \<and> single_spaced cs)"

section \<open>Properties of fetch with retry\<close>

lemma retry_attempts_all_fail:
  assumes "\<forall>n. \<exists>e. get n url table_id = Raises_Exception e"
  shows "retry_attempts get mx delay stat_type url table_id as st =
           Inr (st\<lparr>calls := calls st + length as,
                   sleeps := sleeps st @ replicate (length (filter (\<lambda>a. a + 1 \<noteq> mx) as)) delay,
                   dataframes :=
                     (if \<exists>a \<in> set as. a + 1 = mx then (dataframes st)(stat_type \<mapsto> [])
                      else dataframes st)\<rparr>)"
proof (induction as arbitrary: st)
  case Nil
  show ?case by simp
next
  case (Cons a as)
  obtain e where e: "get (calls st) url table_id = Raises_Exception e"
    using assms by blast
  show ?case
  proof (cases "a + 1 = mx")
    case True
    with e show ?thesis by (cases "\<exists>a \<in> set as. a + 1 = mx") (simp_all add: Cons.IH)
  next
    case False
    with e show ?thesis
      by (cases "\<exists>a \<in> set as. a + 1 = mx") (simp_all add: Cons.IH replicate_append_same)
  qed
qed

lemma filter_not_last_upt:
  "0 < mx \<Longrightarrow> length (filter (\<lambda>a. a + 1 \<noteq> mx) [0..<mx]) = mx - 1"
proof -
  assume "0 < mx"
  then obtain k where k: "mx = Suc k" by (cases mx) auto
  have "filter (\<lambda>a. a + 1 \<noteq> Suc k) [0..<k] = [0..<k]"
    by (rule filter_True) auto
  with k show ?thesis by simp
qed

lemma retry_attempts_fail_then_succeed:
  assumes "\<forall>i < k. \<exists>e. get (calls st + i) url table_id = Raises_Exception e"
    and "get (calls st + k) url table_id = Returns df"
    and "k < length as"
    and "\<forall>a \<in> set (take k as). a + 1 \<noteq> mx"
  shows "retry_attempts get mx delay stat_type url table_id as st =
           Inr (st\<lparr>calls := calls st + k + 1,
                   sleeps := sleeps st @ replicate k delay,
                   dataframes := (dataframes st)(stat_type \<mapsto> df)\<rparr>)"
  using assms
proof (induction as arbitrary: st k)
  case Nil
  then show ?case by simp
next
  case (Cons a as)
  show ?case
  proof (cases k)
    case 0
    with Cons.prems show ?thesis by (cases st) (simp add: fun_upd_def)
  next
    case (Suc j)
    from Cons.prems(1) Suc obtain e where e: "get (calls st) url table_id = Raises_Exception e"
      by (metis add.right_neutral zero_less_Suc)
    from Cons.prems(4) Suc have a: "a + 1 \<noteq> mx" by simp
    let ?st1 = "st\<lparr>calls := Suc (calls st), sleeps := sleeps st @ [delay]\<rparr>"
    have p1: "\<forall>i < j. \<exists>e. get (calls ?st1 + i) url table_id = Raises_Exception e"
    proof (intro allI impI)
      fix i assume "i < j"
      then have "Suc i < k" using Suc by simp
      with Cons.prems(1) have "\<exists>e. get (calls st + Suc i) url table_id = Raises_Exception e"
        by blast
      then show "\<exists>e. get (calls ?st1 + i) url table_id = Raises_Exception e" by simp
    qed
    have p2: "get (calls ?st1 + j) url table_id = Returns df"
      using Cons.prems(2) Suc by simp
    have p3: "j < length as" using Cons.prems(3) Suc by simp
    have p4: "\<forall>a \<in> set (take j as). a + 1 \<noteq> mx" using Cons.prems(4) Suc by simp
    have "retry_attempts get mx delay stat_type url table_id as ?st1 =
            Inr (?st1\<lparr>calls := calls ?st1 + j + 1,
                   sleeps := sleeps ?st1 @ replicate j delay,
                   dataframes := (dataframes ?st1)(stat_type \<mapsto> df)\<rparr>)"
      using p1 p2 p3 p4 by (rule Cons.IH)
    with e a Suc show ?thesis by (simp add: replicate_append_same fun_upd_def)
  qed
qed

text \<open>
  Claim C2. With \<open>max_attempts \<ge> 1\<close>, an acquisition function that raises an
  \<open>Exception\<close> on every call is called exactly \<open>max_attempts\<close> times, the retry loop
  raises nothing and stores the empty dataframe for that source, having slept
  \<open>max_attempts - 1\<close> times; the loop over the sources then pauses and goes on with
  the remaining sources.
\<close>

theorem fetch_with_retry_always_fails:
  assumes "0 < mx"
    and "\<forall>n. \<exists>e. get n url table_id = Raises_Exception e"
    and "table_ids stat_type = Some table_id"
  shows "\<exists>st'. fetch_with_retry get mx delay stat_type url table_id st = Inr st'
           \<and> calls st' = calls st + mx
           \<and> sleeps st' = sleeps st @ replicate (mx - 1) delay
           \<and> dataframes st' = (dataframes st)(stat_type \<mapsto> [])
           \<and> scrape_sources get mx delay table_ids ((stat_type, url) # rest) st =
               scrape_sources get mx delay table_ids rest (st'\<lparr>sleeps := sleeps st' @ [2]\<rparr>)"
proof -
  let ?st' = "st\<lparr>calls := calls st + mx,
                   sleeps := sleeps st @ replicate (mx - 1) delay,
                   dataframes := (dataframes st)(stat_type \<mapsto> [])\<rparr>"
  have last: "\<exists>a \<in> set [0..<mx]. a + 1 = mx"
    using assms(1) by (intro bexI [of _ "mx - 1"]) auto
  have "retry_attempts get mx delay stat_type url table_id [0..<mx] st = Inr ?st'"
    using last filter_not_last_upt [OF assms(1)]
    by (simp add: retry_attempts_all_fail
          [where get = get and url = url and table_id = table_id, OF assms(2)])
  then have f: "fetch_with_retry get mx delay stat_type url table_id st = Inr ?st'"
    by (simp add: fetch_with_retry_def)
  have "scrape_sources get mx delay table_ids ((stat_type, url) # rest) st =
          scrape_sources get mx delay table_ids rest (?st'\<lparr>sleeps := sleeps ?st' @ [2]\<rparr>)"
    using f assms(3) by simp
  with f show ?thesis by simp
qed

theorem fetch_with_retry_always_fails_witness:
  "\<exists>st'. fetch_with_retry always_timeout MAX_RETRIES RETRY_DELAY
            ''standard'' ''u'' ''stats_standard'' state0 = Inr st'
     \<and> calls st' = 3
     \<and> sleeps st' = [5, 5]
     \<and> dataframes st' ''standard'' = Some []"
proof -
  have h1: "0 < MAX_RETRIES" by (simp add: MAX_RETRIES_def)
  have h2: "\<forall>n. \<exists>e. always_timeout n ''u'' ''stats_standard'' = Raises_Exception e"
    by (simp add: always_timeout_def)
  have h3: "[''standard'' \<mapsto> ''stats_standard''] ''standard'' = Some ''stats_standard''"
    by simp
  from fetch_with_retry_always_fails
    [where get = always_timeout and url = "''u''" and table_id = "''stats_standard''"
       and table_ids = "[''standard'' \<mapsto> ''stats_standard'']" and delay = RETRY_DELAY
       and st = state0 and rest = "[]", OF h1 h2 h3]
  show ?thesis
    by (auto simp: MAX_RETRIES_def RETRY_DELAY_def state0_def numeral_2_eq_2)
qed

text \<open>
  Claim C3. An acquisition function that raises an \<open>Exception\<close> on the first
  \<open>max_attempts - 1\<close> calls of the retry loop and returns a table on call number
  \<open>max_attempts\<close> has that table stored as the result, after exactly
  \<open>max_attempts - 1\<close> sleeps of the retry delay.
\<close>

theorem fetch_with_retry_succeeds_on_last:
  assumes "0 < mx"
    and "\<forall>i < mx - 1. \<exists>e. get (calls st + i) url table_id = Raises_Exception e"
    and "get (calls st + (mx - 1)) url table_id = Returns df"
  shows "fetch_with_retry get mx delay stat_type url table_id st =
           Inr (st\<lparr>calls := calls st + mx,
                   sleeps := sleeps st @ replicate (mx - 1) delay,
                   dataframes := (dataframes st)(stat_type \<mapsto> df)\<rparr>)"
proof -
  have p3: "mx - 1 < length [0..<mx]" using assms(1) by simp
  have p4: "\<forall>a \<in> set (take (mx - 1) [0..<mx]). a + 1 \<noteq> mx"
    by (auto simp: take_upt)
  have "retry_attempts get mx delay stat_type url table_id [0..<mx] st =
          Inr (st\<lparr>calls := calls st + (mx - 1) + 1,
                  sleeps := sleeps st @ replicate (mx - 1) delay,
                  dataframes := (dataframes st)(stat_type \<mapsto> df)\<rparr>)"
    by (rule retry_attempts_fail_then_succeed
          [where get = get and url = url and table_id = table_id and st = st,
            OF assms(2) assms(3) p3 p4])
  with assms(1) show ?thesis by (simp add: fetch_with_retry_def)
qed

theorem fetch_with_retry_succeeds_on_last_witness:
  "fetch_with_retry third_time_lucky MAX_RETRIES RETRY_DELAY
     ''standard'' ''u'' ''stats_standard'' state0 =
   Inr \<lparr>calls = 3, sleeps = [5, 5],
        dataframes = [''standard'' \<mapsto> [[(''Player'', ''A'')]]]\<rparr>"
proof -
  have h1: "0 < MAX_RETRIES" by (simp add: MAX_RETRIES_def)
  have h2: "\<forall>i < MAX_RETRIES - 1.
      \<exists>e. third_time_lucky (calls state0 + i) ''u'' ''stats_standard'' = Raises_Exception e"
    by (simp add: MAX_RETRIES_def third_time_lucky_def state0_def)
  have h3: "third_time_lucky (calls state0 + (MAX_RETRIES - 1)) ''u'' ''stats_standard'' =
      Returns [[(''Player'', ''A'')]]"
    by (simp add: MAX_RETRIES_def third_time_lucky_def state0_def)
  from fetch_with_retry_succeeds_on_last
    [where get = third_time_lucky and url = "''u''" and table_id = "''stats_standard''"
       and delay = RETRY_DELAY and stat_type = "''standard''" and st = state0, OF h1 h2 h3]
  show ?thesis
    by (simp add: MAX_RETRIES_def RETRY_DELAY_def state0_def numeral_2_eq_2)
qed

section \<open>Properties of the validation\<close>

lemma validate_entries_stops:
  assumes "i < length data"
    and "\<forall>j < i. check_entry (k + j) (data ! j) = Inr None"
    and "check_entry (k + i) (data ! i) \<noteq> Inr None"
  shows "validate_entries k data = check_entry (k + i) (data ! i)"
  using assms
proof (induction data arbitrary: i k)
  case Nil
  then show ?case by simp
next
  case (Cons player rest)
  show ?case
  proof (cases i)
    case 0
    with Cons.prems(3) show ?thesis
      by (auto split: sum.splits option.splits)
  next
    case (Suc i')
    from Cons.prems(2) Suc have first: "check_entry k player = Inr None"
      by (metis add.right_neutral nth_Cons_0 zero_less_Suc)
    have p1: "i' < length rest" using Cons.prems(1) Suc by simp
    have p2: "\<forall>j < i'. check_entry (k + 1 + j) (rest ! j) = Inr None"
    proof (intro allI impI)
      fix j assume "j < i'"
      then have "Suc j < i" using Suc by simp
      with Cons.prems(2) have "check_entry (k + Suc j) ((player # rest) ! Suc j) = Inr None"
        by blast
      then show "check_entry (k + 1 + j) (rest ! j) = Inr None" by simp
    qed
    have p3: "check_entry (k + 1 + i') (rest ! i') \<noteq> Inr None"
      using Cons.prems(3) Suc by simp
    have "validate_entries (k + 1) rest = check_entry (k + 1 + i') (rest ! i')"
      using p1 p2 p3 by (rule Cons.IH)
    with first Suc show ?thesis by simp
  qed
qed

lemma validate_entries_passes:
  "validate_entries k data = Inr None \<Longrightarrow>
     \<forall>i < length data. check_entry (k + i) (data ! i) = Inr None"
proof (induction data arbitrary: k)
  case Nil
  then show ?case by simp
next
  case (Cons player rest)
  from Cons.prems have first: "check_entry k player = Inr None"
    by (auto split: sum.splits option.splits)
  with Cons.prems have "validate_entries (k + 1) rest = Inr None" by simp
  then have rest: "\<forall>i < length rest. check_entry (k + 1 + i) (rest ! i) = Inr None"
    by (rule Cons.IH)
  show ?case
  proof (intro allI impI)
    fix i assume "i < length (player # rest)"
    then show "check_entry (k + i) ((player # rest) ! i) = Inr None"
      using first rest by (cases i) auto
  qed
qed

lemma validate_entries_first_violation:
  "validate_entries k data = Inr (Some m) \<Longrightarrow>
     \<exists>i < length data. (\<forall>j < i. check_entry (k + j) (data ! j) = Inr None)
        \<and> check_entry (k + i) (data ! i) = Inr (Some m)"
proof (induction data arbitrary: k)
  case Nil
  then show ?case by simp
next
  case (Cons player rest)
  show ?case
  proof (cases "check_entry k player = Inr None")
    case False
    with Cons.prems have "check_entry k player = Inr (Some m)"
      by (auto split: sum.splits option.splits)
    then show ?thesis by (intro exI [of _ 0]) simp
  next
    case True
    with Cons.prems have "validate_entries (k + 1) rest = Inr (Some m)" by simp
    from Cons.IH [OF this] obtain i where i: "i < length rest"
      "\<forall>j < i. check_entry (k + 1 + j) (rest ! j) = Inr None"
      "check_entry (k + 1 + i) (rest ! i) = Inr (Some m)"
      by blast
    have "\<forall>j < Suc i. check_entry (k + j) ((player # rest) ! j) = Inr None"
    proof (intro allI impI)
      fix j assume "j < Suc i"
      then show "check_entry (k + j) ((player # rest) ! j) = Inr None"
        using True i(2) by (cases j) auto
    qed
    with i(1) i(3) show ?thesis by (intro exI [of _ "Suc i"]) simp
  qed
qed

lemma check_entry_missing_assists:
  assumes "map_of player ''assists'' = None"
  shows "\<exists>field. check_entry i (JDict player) = Inr (Some (Entry_missing_field (i + 1) field))"
  using assms by (simp add: required_fields_def)

lemma check_entry_only_assists_missing:
  assumes "map_of player ''assists'' = None"
    and "map_of player ''name'' \<noteq> None"
    and "map_of player ''minutes'' \<noteq> None"
    and "map_of player ''goals'' \<noteq> None"
  shows "check_entry i (JDict player) = Inr (Some (Entry_missing_field (i + 1) ''assists''))"
  using assms by (simp add: required_fields_def)

lemma py_lower_validate: "py_lower ''validate'' = ''validate''"
  by (simp add: py_lower_def py_lower_char_def)

lemma py_lower_import: "py_lower ''import'' = ''import''"
  by (simp add: py_lower_def py_lower_char_def)

lemma main_validate:
  "main fs now [prog, ''validate'', stats_file] =
     (case validate_stats_file fs stats_file of
        Inl err \<Rightarrow> Inl err
      | Inr (ok, out) \<Rightarrow> Inr (fs, out))"
  by (simp add: main_def py_lower_validate numeral_2_eq_2 split: sum.splits prod.splits)

lemma main_import:
  "main fs now [prog, ''import'', stats_file] =
     (case validate_stats_file fs stats_file of
        Inl err \<Rightarrow> Inl err
      | Inr (ok, out) \<Rightarrow>
          (if ok
           then (case import_player_stats fs now stats_file of
                   Inl err \<Rightarrow> Inl err
                 | Inr (result, fs', out') \<Rightarrow> Inr (fs', out @ out'))
           else Inr (fs, out)))"
  by (simp add: main_def py_lower_import numeral_2_eq_2 split: sum.splits prod.splits)

lemma strip_A: "py_strip ''A'' = ''A''"
  by (simp add: py_strip_def py_isspace_def)

lemma check_entry_ok: "check_entry i entry_ok = Inr None"
  by (simp add: entry_ok_def required_fields_def strip_A)

text \<open>
  Claim C8, as stated, fails: validation stops at the first violation, so an array whose
  second entry lacks \<open>assists\<close> and whose first entry lacks \<open>minutes\<close> is reported
  as entry 1 missing \<open>minutes\<close>; the entry without \<open>assists\<close> is not named.
\<close>

theorem missing_assists_not_reported_counterexample:
  "[entry_no_minutes, entry_no_assists] ! 1 =
      JDict [(''name'', JStr ''B''), (''minutes'', JInt 90), (''goals'', JInt 1)]
   \<and> map_of [(''name'', JStr ''B''), (''minutes'', JInt 90), (''goals'', JInt 1)] ''assists'' = None
   \<and> validate_stats_file (stats_only [entry_no_minutes, entry_no_assists]) ''stats.json'' =
       Inr (False, [Entry_missing_field 1 ''minutes''])"
  by (simp add: entry_no_minutes_def entry_no_assists_def stats_only_def
      validate_stats_file_def required_fields_def)

text \<open>
  Claim C8, amended. When the array holds an entry that is an object without \<open>assists\<close>,
  validation never returns \<open>True\<close> and the \<open>import\<close> command leaves the files as they
  are, printing only what the validation printed. When moreover every earlier entry passes
  its checks and the entry has \<open>name\<close>, \<open>minutes\<close> and \<open>goals\<close>, validation returns
  \<open>False\<close> and prints exactly the line naming the entry's 1-based position and the field
  \<open>assists\<close>.
\<close>

theorem missing_assists_blocks_import:
  assumes "fs stats_file = Some (Json (JList data))"
    and "i < length data"
    and "data ! i = JDict player"
    and "map_of player ''assists'' = None"
  shows "(\<forall>out. validate_stats_file fs stats_file \<noteq> Inr (True, out))
    \<and> main fs now [prog, ''import'', stats_file] =
        (case validate_stats_file fs stats_file of
           Inl err \<Rightarrow> Inl err
         | Inr (ok, out) \<Rightarrow> Inr (fs, out))
    \<and> ((\<forall>j < i. check_entry j (data ! j) = Inr None)
         \<and> map_of player ''name'' \<noteq> None
         \<and> map_of player ''minutes'' \<noteq> None
         \<and> map_of player ''goals'' \<noteq> None \<longrightarrow>
        validate_stats_file fs stats_file = Inr (False, [Entry_missing_field (i + 1) ''assists''])
        \<and> main fs now [prog, ''import'', stats_file] =
            Inr (fs, [Entry_missing_field (i + 1) ''assists'']))"
proof -
  have never: "validate_stats_file fs stats_file \<noteq> Inr (True, out)" for out
  proof
    assume "validate_stats_file fs stats_file = Inr (True, out)"
    then have "validate_entries 0 data = Inr None"
      using assms(1) by (auto simp: validate_stats_file_def split: sum.splits option.splits)
    then have "check_entry (0 + i) (data ! i) = Inr None"
      using assms(2) validate_entries_passes by blast
    moreover obtain field where
      "check_entry i (JDict player) = Inr (Some (Entry_missing_field (i + 1) field))"
      using check_entry_missing_assists [OF assms(4)] by blast
    ultimately show False using assms(3) by simp
  qed
  have blocked: "main fs now [prog, ''import'', stats_file] =
      (case validate_stats_file fs stats_file of
         Inl err \<Rightarrow> Inl err
       | Inr (ok, out) \<Rightarrow> Inr (fs, out))"
    using never by (auto simp: main_import split: sum.splits)
  have exact: "validate_stats_file fs stats_file =
        Inr (False, [Entry_missing_field (i + 1) ''assists''])
      \<and> main fs now [prog, ''import'', stats_file] =
        Inr (fs, [Entry_missing_field (i + 1) ''assists''])"
    if earlier: "\<forall>j < i. check_entry j (data ! j) = Inr None"
      and name: "map_of player ''name'' \<noteq> None"
      and minutes: "map_of player ''minutes'' \<noteq> None"
      and goals: "map_of player ''goals'' \<noteq> None"
  proof -
    have here: "check_entry (0 + i) (data ! i) =
        Inr (Some (Entry_missing_field (i + 1) ''assists''))"
      using check_entry_only_assists_missing [OF assms(4) name minutes goals] assms(3) by simp
    have "validate_entries 0 data = check_entry (0 + i) (data ! i)"
      using assms(2) earlier here by (intro validate_entries_stops) auto
    with here have v: "validate_stats_file fs stats_file =
        Inr (False, [Entry_missing_field (i + 1) ''assists''])"
      using assms(1) by (simp add: validate_stats_file_def)
    with blocked show ?thesis by simp
  qed
  from never blocked exact show ?thesis by blast
qed

theorem missing_assists_blocks_import_witness:
  "validate_stats_file (stats_only [entry_ok, entry_no_assists]) ''stats.json'' =
     Inr (False, [Entry_missing_field 2 ''assists''])
   \<and> main (stats_only [entry_ok, entry_no_assists]) clock [script, ''import'', ''stats.json''] =
     Inr (stats_only [entry_ok, entry_no_assists], [Entry_missing_field 2 ''assists''])"
proof -
  let ?player = "[(''name'', JStr ''B''), (''minutes'', JInt 90), (''goals'', JInt 1)]"
  have h1: "stats_only [entry_ok, entry_no_assists] ''stats.json'' =
      Some (Json (JList [entry_ok, entry_no_assists]))"
    by (simp add: stats_only_def)
  have h2: "1 < length [entry_ok, entry_no_assists]" by simp
  have h3: "[entry_ok, entry_no_assists] ! 1 = JDict ?player"
    by (simp add: entry_no_assists_def)
  have h4: "map_of ?player ''assists'' = None" by simp
  have h5: "(\<forall>j < 1. check_entry j ([entry_ok, entry_no_assists] ! j) = Inr None)
      \<and> map_of ?player ''name'' \<noteq> None
      \<and> map_of ?player ''minutes'' \<noteq> None
      \<and> map_of ?player ''goals'' \<noteq> None"
    by (simp add: check_entry_ok)
  from missing_assists_blocks_import
    [where fs = "stats_only [entry_ok, entry_no_assists]" and stats_file = "''stats.json''"
       and data = "[entry_ok, entry_no_assists]" and i = 1 and player = ?player
       and now = clock and prog = script, OF h1 h2 h3 h4] h5
  show ?thesis by (simp add: numeral_2_eq_2)
qed

text \<open>
  Claim C9, as stated, fails: on a file that passes, the \<open>validate\<close> command prints
  the line that the format is valid, with the number of entries.
\<close>

theorem validate_success_prints_counterexample:
  "main (stats_only [entry_ok]) clock [script, ''validate'', ''stats.json''] =
     Inr (stats_only [entry_ok], [File_valid 1])"
  by (simp add: main_validate validate_stats_file_def stats_only_def check_entry_ok)

text \<open>
  Claim C9, amended. Whenever the validation returns, the \<open>validate\<close> command prints
  exactly the one line of the validation and changes no file. On a file that passes, every
  entry passes its checks and the line says that the format is valid, with the number of
  entries. On a file that fails, the line is the first violation: the file cannot be read
  or parsed, its content is not a list, or it is the violation of the first entry that
  does not pass.
\<close>

theorem validate_prints_one_line:
  assumes "validate_stats_file fs stats_file = Inr (ok, out)"
  shows "main fs now [prog, ''validate'', stats_file] = Inr (fs, out)
    \<and> length out = 1
    \<and> (ok \<longrightarrow> (\<exists>data. fs stats_file = Some (Json (JList data))
                  \<and> (\<forall>i < length data. check_entry i (data ! i) = Inr None)
                  \<and> out = [File_valid (length data)]))
    \<and> (\<not> ok \<longrightarrow>
          (out = [Error_reading_file] \<and> (fs stats_file = None \<or> fs stats_file = Some Not_json))
        \<or> (out = [Must_contain_list]
             \<and> (\<exists>v. fs stats_file = Some (Json v) \<and> (\<forall>data. v \<noteq> JList data)))
        \<or> (\<exists>data i m. fs stats_file = Some (Json (JList data)) \<and> i < length data
             \<and> (\<forall>j < i. check_entry j (data ! j) = Inr None)
             \<and> check_entry i (data ! i) = Inr (Some m) \<and> out = [m]))"
proof -
  have cmd: "main fs now [prog, ''validate'', stats_file] = Inr (fs, out)"
    using assms by (simp add: main_validate)
  show ?thesis
  proof (cases "fs stats_file")
    case None
    with assms cmd show ?thesis by (auto simp: validate_stats_file_def)
  next
    case (Some content)
    show ?thesis
    proof (cases content)
      case Not_json
      with Some assms cmd show ?thesis by (auto simp: validate_stats_file_def)
    next
      case (Json v)
      show ?thesis
      proof (cases "\<exists>data. v = JList data")
        case False
        with Json Some assms have "ok = False \<and> out = [Must_contain_list]"
          by (cases v) (auto simp: validate_stats_file_def)
        with False Json Some cmd show ?thesis by auto
      next
        case True
        then obtain data where v: "v = JList data" by blast
        show ?thesis
        proof (cases "validate_entries 0 data")
          case (Inl err)
          with v Json Some assms show ?thesis by (simp add: validate_stats_file_def)
        next
          case (Inr r)
          show ?thesis
          proof (cases r)
            case None
            with Inr have "\<forall>i < length data. check_entry (0 + i) (data ! i) = Inr None"
              using validate_entries_passes by blast
            moreover from None Inr v Json Some assms
            have "ok = True \<and> out = [File_valid (length data)]"
              by (simp add: validate_stats_file_def)
            ultimately show ?thesis using v Json Some cmd by simp
          next
            case (Some m)
            with Inr have "\<exists>i < length data.
                (\<forall>j < i. check_entry (0 + j) (data ! j) = Inr None)
                \<and> check_entry (0 + i) (data ! i) = Inr (Some m)"
              using validate_entries_first_violation by blast
            then obtain i where i: "i < length data"
              "\<forall>j < i. check_entry j (data ! j) = Inr None"
              "check_entry i (data ! i) = Inr (Some m)"
              by auto
            from Some Inr v Json \<open>fs stats_file = Some content\<close> assms
            have "ok = False \<and> out = [m]"
              by (simp add: validate_stats_file_def)
            with i v Json \<open>fs stats_file = Some content\<close> cmd show ?thesis by auto
          qed
        qed
      qed
    qed
  qed
qed

theorem validate_prints_one_line_witness:
  "main (stats_only [entry_ok]) clock [script, ''validate'', ''stats.json''] =
     Inr (stats_only [entry_ok], [File_valid 1])
   \<and> main (stats_only [entry_no_assists, entry_no_minutes]) clock
       [script, ''validate'', ''stats.json''] =
     Inr (stats_only [entry_no_assists, entry_no_minutes], [Entry_missing_field 1 ''assists''])"
proof -
  have h1: "validate_stats_file (stats_only [entry_ok]) ''stats.json'' =
      Inr (True, [File_valid 1])"
    by (simp add: validate_stats_file_def stats_only_def check_entry_ok)
  have h2: "validate_stats_file (stats_only [entry_no_assists, entry_no_minutes]) ''stats.json'' =
      Inr (False, [Entry_missing_field 1 ''assists''])"
    by (simp add: validate_stats_file_def stats_only_def entry_no_assists_def
        required_fields_def)
  from validate_prints_one_line
      [where fs = "stats_only [entry_ok]" and stats_file = "''stats.json''"
         and now = clock and prog = script, OF h1]
    validate_prints_one_line
      [where fs = "stats_only [entry_no_assists, entry_no_minutes]"
         and stats_file = "''stats.json''" and now = clock and prog = script, OF h2]
  show ?thesis by blast
qed

text \<open>
  Claim C10. Validation is not total: on an array whose entry has all four required
  fields and a number as its \<open>name\<close>, \<open>validate_stats_file\<close> raises
  \<open>AttributeError\<close>, and so does the \<open>validate\<close> command; no line is printed and no
  boolean returned.
\<close>

theorem validate_raises_on_numeric_name:
  "entry_numeric_name =
      JDict [(''name'', JInt 7), (''minutes'', JInt 90), (''goals'', JInt 1), (''assists'', JInt 0)]
   \<and> first_missing required_fields
        [(''name'', JInt 7), (''minutes'', JInt 90), (''goals'', JInt 1), (''assists'', JInt 0)] = None
   \<and> validate_stats_file (stats_only [entry_numeric_name]) ''stats.json'' = Inl AttributeError
   \<and> main (stats_only [entry_numeric_name]) clock [script, ''validate'', ''stats.json''] =
       Inl AttributeError"
  by (simp add: main_validate validate_stats_file_def stats_only_def entry_numeric_name_def
      required_fields_def)

section \<open>Properties of the merge\<close>

lemma map_of_dict_set: "map_of (dict_set d k v) = (map_of d)(k \<mapsto> v)"
  by (induction d k v rule: dict_set.induct) (auto simp: fun_eq_iff)

lemma dict_get_dict_set:
  "dict_get (dict_set d k v) k' dflt = (if k' = k then v else dict_get d k' dflt)"
  by (simp add: dict_get_def map_of_dict_set)

lemma stat_differs_dict_set:
  "k \<noteq> s \<Longrightarrow> stat_differs ps (dict_set op s v) k = stat_differs ps op k"
  by (simp add: stat_differs_def dict_get_dict_set split: option.splits)

lemma update_stats_fst:
  "distinct stats \<Longrightarrow>
     map_of (fst (update_stats stats ps op ch)) k =
       (if k \<in> set stats \<and> stat_differs ps op k then map_of ps k else map_of op k)"
proof (induction stats arbitrary: op ch)
  case Nil
  show ?case by simp
next
  case (Cons s rest)
  then have d: "distinct rest" and s: "s \<notin> set rest" by simp_all
  show ?case
  proof (cases "stat_differs ps op s")
    case False
    then have "update_stats (s # rest) ps op ch = update_stats rest ps op ch"
      by (auto simp: stat_differs_def split: option.splits)
    with False show ?thesis using Cons.IH [OF d, of op ch] by auto
  next
    case True
    then obtain v where v: "map_of ps s = Some v"
      by (auto simp: stat_differs_def split: option.splits)
    let ?op = "dict_set op s v"
    let ?ch = "ch @ [Change s (dict_get op s (JInt 0)) v]"
    have step: "update_stats (s # rest) ps op ch = update_stats rest ps ?op ?ch"
      using True v by (simp add: stat_differs_def)
    show ?thesis
    proof (cases "k = s")
      case True
      with s step v \<open>stat_differs ps op s\<close> show ?thesis
        using Cons.IH [OF d, of ?op ?ch] by (simp add: map_of_dict_set)
    next
      case False
      with step show ?thesis
        using Cons.IH [OF d, of ?op ?ch]
        by (simp add: map_of_dict_set stat_differs_dict_set)
    qed
  qed
qed

lemma update_stats_snd:
  "distinct stats \<Longrightarrow>
     snd (update_stats stats ps op ch) =
       ch @ map (\<lambda>stat. Change stat (dict_get op stat (JInt 0)) (dict_get ps stat JNull))
              (filter (stat_differs ps op) stats)"
proof (induction stats arbitrary: op ch)
  case Nil
  show ?case by simp
next
  case (Cons s rest)
  then have d: "distinct rest" and s: "s \<notin> set rest" by simp_all
  show ?case
  proof (cases "stat_differs ps op s")
    case False
    then have "update_stats (s # rest) ps op ch = update_stats rest ps op ch"
      by (auto simp: stat_differs_def split: option.splits)
    with False show ?thesis using Cons.IH [OF d, of op ch] by simp
  next
    case True
    then obtain v where v: "map_of ps s = Some v"
      by (auto simp: stat_differs_def split: option.splits)
    let ?op = "dict_set op s v"
    let ?ch = "ch @ [Change s (dict_get op s (JInt 0)) v]"
    have step: "update_stats (s # rest) ps op ch = update_stats rest ps ?op ?ch"
      using True v by (simp add: stat_differs_def)
    have ne: "x \<noteq> s" if "x \<in> set rest" for x using s that by auto
    have same_filter: "filter (stat_differs ps ?op) rest = filter (stat_differs ps op) rest"
      by (intro filter_cong) (simp_all add: stat_differs_dict_set ne)
    have same_map:
      "map (\<lambda>stat. Change stat (dict_get ?op stat (JInt 0)) (dict_get ps stat JNull))
         (filter (stat_differs ps op) rest) =
       map (\<lambda>stat. Change stat (dict_get op stat (JInt 0)) (dict_get ps stat JNull))
         (filter (stat_differs ps op) rest)"
      by (intro map_cong) (simp_all add: dict_get_dict_set ne)
    have "dict_get ps s JNull = v" using v by (simp add: dict_get_def)
    with step same_filter same_map True show ?thesis
      using Cons.IH [OF d, of ?op ?ch] by simp
  qed
qed

lemma distinct_stats_to_update: "distinct stats_to_update"
  by (simp add: stats_to_update_def)

lemma update_stats_changes:
  "snd (update_stats stats_to_update ps op []) = changes_of ps op"
  using update_stats_snd [OF distinct_stats_to_update, of ps op "[]"]
  by (simp add: changes_of_def)

lemma changes_of_empty:
  "changes_of ps op = [] \<longleftrightarrow> \<not> (\<exists>k \<in> set stats_to_update. stat_differs ps op k)"
  by (auto simp: changes_of_def filter_empty_conv)

lemma build_player_dict_step:
  assumes "build_player_dict k (p # rest) m = Inr pd"
  obtains player n where "p = JDict player" "map_of player ''name'' = Some (JStr n)"
      "build_player_dict (k + 1) rest (m(n \<mapsto> k)) = Inr pd"
  | player v where "p = JDict player" "map_of player ''name'' = Some v"
      "\<forall>n. v \<noteq> JStr n" "build_player_dict (k + 1) rest m = Inr pd"
proof (cases p)
  case (JDict player)
  show ?thesis
  proof (cases "map_of player ''name''")
    case None
    with JDict assms show ?thesis by simp
  next
    case (Some v)
    with JDict assms that show ?thesis by (cases v) auto
  qed
qed (use assms in simp_all)

lemma build_player_dict_absent:
  "build_player_dict k players m = Inr pd \<Longrightarrow>
     \<forall>i < length players. \<not> has_name name (players ! i) \<Longrightarrow> pd name = m name"
proof (induction players arbitrary: k m)
  case Nil
  then show ?case by simp
next
  case (Cons p rest)
  from Cons.prems(2) have here: "\<not> has_name name p" by auto
  from Cons.prems(2) have rest: "\<forall>j < length rest. \<not> has_name name (rest ! j)" by auto
  from Cons.prems(1) show ?case
  proof (cases rule: build_player_dict_step)
    case (1 player n)
    then have "pd name = (m(n \<mapsto> k)) name" using Cons.IH rest by blast
    moreover have "n \<noteq> name" using here 1 by auto
    ultimately show ?thesis by simp
  next
    case (2 player v)
    then show ?thesis using Cons.IH rest by blast
  qed
qed

lemma build_player_dict_last:
  "build_player_dict k players m = Inr pd \<Longrightarrow> i < length players \<Longrightarrow>
     has_name name (players ! i) \<Longrightarrow>
     \<forall>j. i < j \<and> j < length players \<longrightarrow> \<not> has_name name (players ! j) \<Longrightarrow>
     pd name = Some (k + i)"
proof (induction players arbitrary: k m i)
  case Nil
  then show ?case by simp
next
  case (Cons p rest)
  show ?case
  proof (cases i)
    case 0
    with Cons.prems(3) have here: "has_name name p" by simp
    have rest: "\<forall>j < length rest. \<not> has_name name (rest ! j)"
    proof (intro allI impI)
      fix j assume "j < length rest"
      with 0 Cons.prems(4) have "\<not> has_name name ((p # rest) ! Suc j)" by auto
      then show "\<not> has_name name (rest ! j)" by simp
    qed
    from Cons.prems(1) show ?thesis
    proof (cases rule: build_player_dict_step)
      case (1 player n)
      with here have "n = name" by simp
      moreover from 1 rest have "pd name = (m(n \<mapsto> k)) name"
        using build_player_dict_absent by blast
      ultimately show ?thesis using 0 by simp
    next
      case (2 player v)
      with here show ?thesis by simp
    qed
  next
    case (Suc i')
    have p1: "i' < length rest" using Cons.prems(2) Suc by simp
    have p2: "has_name name (rest ! i')" using Cons.prems(3) Suc by simp
    have p3: "\<forall>j. i' < j \<and> j < length rest \<longrightarrow> \<not> has_name name (rest ! j)"
    proof (intro allI impI)
      fix j assume "i' < j \<and> j < length rest"
      with Suc Cons.prems(4) have "\<not> has_name name ((p # rest) ! Suc j)" by auto
      then show "\<not> has_name name (rest ! j)" by simp
    qed
    from Cons.prems(1) show ?thesis
    proof (cases rule: build_player_dict_step)
      case (1 player n)
      then have "pd name = Some (k + 1 + i')" using Cons.IH p1 p2 p3 by blast
      with Suc show ?thesis by simp
    next
      case (2 player v)
      then have "pd name = Some (k + 1 + i')" using Cons.IH p1 p2 p3 by blast
      with Suc show ?thesis by simp
    qed
  qed
qed

lemma update_stats_unchanged:
  "\<not> (\<exists>k \<in> set stats. stat_differs ps op k) \<Longrightarrow> fst (update_stats stats ps op ch) = op"
  by (induction stats arbitrary: ch) (auto simp: stat_differs_def split: option.splits)

lemma import_entry_found:
  assumes "dict_get ps ''name'' (JStr []) = JStr raw_name"
    and "py_strip raw_name = name"
    and "name \<noteq> []"
    and "player_dict name = Some i"
    and "i < length (fpl_data st)"
    and "fpl_data st ! i = JDict op"
  shows "import_entry player_dict (JDict ps) st =
     Inr (if changes_of ps op = []
          then st\<lparr>printed := printed st @ [No_changes_needed name]\<rparr>
          else st\<lparr>fpl_data := (fpl_data st)[i := JDict (fst (update_stats stats_to_update ps op []))],
                  updated_count := updated_count st + 1,
                  printed := printed st @ [Updated name] @ take 3 (changes_of ps op)
                    @ (if length (changes_of ps op) > 3
                       then [More_changes (length (changes_of ps op) - 3)] else [])\<rparr>)"
proof -
  obtain updated changes where us: "update_stats stats_to_update ps op [] = (updated, changes)"
    by (cases "update_stats stats_to_update ps op []") auto
  then have "changes = changes_of ps op"
    using update_stats_changes [of ps op] by simp
  with us assms show ?thesis by (simp add: Let_def)
qed

lemma import_entry_not_found:
  assumes "dict_get ps ''name'' (JStr []) = JStr raw_name"
    and "py_strip raw_name = name"
    and "name \<noteq> []"
    and "player_dict name = None"
  shows "import_entry player_dict (JDict ps) st =
     Inr (st\<lparr>not_found_count := not_found_count st + 1,
             printed := printed st @ [Player_not_found name]\<rparr>)"
  using assms by (simp add: Let_def)

text \<open>
  Claim C4, as stated, fails for a field outside \<open>stats_to_update\<close>: the update
  \<open>{"name": "A", "team": "ARS"}\<close> meets the record \<open>{"name": "A", "team": "CHE"}\<close>,
  the field \<open>team\<close> is present in the update and differs, and the record is left as it
  was, with no change counted.
\<close>

theorem team_not_overwritten_counterexample:
  "import_entry [''A'' \<mapsto> 0] (JDict [(''name'', JStr ''A''), (''team'', JStr ''ARS'')])
     (merge_start [JDict [(''name'', JStr ''A''), (''team'', JStr ''CHE'')]]) =
   Inr \<lparr>fpl_data = [JDict [(''name'', JStr ''A''), (''team'', JStr ''CHE'')]],
        updated_count = 0, not_found_count = 0,
        printed = [Importing_header, Separator, No_changes_needed ''A'']\<rparr>"
  by (simp add: merge_start_def dict_get_def strip_A stats_to_update_def Let_def)

text \<open>
  One call of the loop body, for an update whose name is a string that is not empty once
  stripped, when the lookup dictionary is the one built from the dataset of the state.
\<close>

lemma import_entry_step:
  assumes "build_player_dict 0 (fpl_data st) Map.empty = Inr player_dict"
    and "dict_get player_stats ''name'' (JStr []) = JStr raw_name"
    and "py_strip raw_name = name"
    and "name \<noteq> []"
  shows "((\<forall>i < length (fpl_data st). \<not> has_name name (fpl_data st ! i)) \<longrightarrow>
            import_entry player_dict (JDict player_stats) st =
              Inr (st\<lparr>not_found_count := not_found_count st + 1,
                      printed := printed st @ [Player_not_found name]\<rparr>))
    \<and> (i < length (fpl_data st) \<and> fpl_data st ! i = JDict original_player
         \<and> map_of original_player ''name'' = Some (JStr name)
         \<and> (\<forall>j. i < j \<and> j < length (fpl_data st) \<longrightarrow> \<not> has_name name (fpl_data st ! j)) \<longrightarrow>
        (\<exists>updated st'.
            import_entry player_dict (JDict player_stats) st = Inr st'
          \<and> fpl_data st' = (fpl_data st)[i := JDict updated]
          \<and> (\<forall>k. map_of updated k =
                 (if k \<in> set stats_to_update \<and> stat_differs player_stats original_player k
                  then map_of player_stats k else map_of original_player k))
          \<and> not_found_count st' = not_found_count st
          \<and> updated_count st' =
               updated_count st + (if changes_of player_stats original_player = [] then 0 else 1)
          \<and> printed st' = printed st @
               (if changes_of player_stats original_player = []
                then [No_changes_needed name]
                else [Updated name] @ take 3 (changes_of player_stats original_player)
                  @ (if length (changes_of player_stats original_player) > 3
                     then [More_changes (length (changes_of player_stats original_player) - 3)]
                     else []))))"
proof (intro conjI impI)
  assume "\<forall>i < length (fpl_data st). \<not> has_name name (fpl_data st ! i)"
  with assms(1) have "player_dict name = Map.empty name"
    by (rule build_player_dict_absent)
  then have "player_dict name = None" by simp
  with assms(2-4) show "import_entry player_dict (JDict player_stats) st =
      Inr (st\<lparr>not_found_count := not_found_count st + 1,
              printed := printed st @ [Player_not_found name]\<rparr>)"
    by (rule import_entry_not_found)
next
  assume found: "i < length (fpl_data st) \<and> fpl_data st ! i = JDict original_player
      \<and> map_of original_player ''name'' = Some (JStr name)
      \<and> (\<forall>j. i < j \<and> j < length (fpl_data st) \<longrightarrow> \<not> has_name name (fpl_data st ! j))"
  then have i: "i < length (fpl_data st)" and rec: "fpl_data st ! i = JDict original_player"
    and last: "\<forall>j. i < j \<and> j < length (fpl_data st) \<longrightarrow> \<not> has_name name (fpl_data st ! j)"
    by simp_all
  from found have "has_name name (fpl_data st ! i)" by simp
  with assms(1) i last have "player_dict name = Some (0 + i)"
    by (intro build_player_dict_last) auto
  then have pd: "player_dict name = Some i" by simp
  let ?updated = "fst (update_stats stats_to_update player_stats original_player [])"
  have run: "import_entry player_dict (JDict player_stats) st =
     Inr (if changes_of player_stats original_player = []
          then st\<lparr>printed := printed st @ [No_changes_needed name]\<rparr>
          else st\<lparr>fpl_data := (fpl_data st)[i := JDict ?updated],
                  updated_count := updated_count st + 1,
                  printed := printed st @ [Updated name]
                    @ take 3 (changes_of player_stats original_player)
                    @ (if length (changes_of player_stats original_player) > 3
                       then [More_changes (length (changes_of player_stats original_player) - 3)]
                       else [])\<rparr>)"
    using assms(2-4) pd i rec by (rule import_entry_found)
  have fields: "\<forall>k. map_of ?updated k =
      (if k \<in> set stats_to_update \<and> stat_differs player_stats original_player k
       then map_of player_stats k else map_of original_player k)"
    using update_stats_fst [OF distinct_stats_to_update] by blast
  have same: "(fpl_data st)[i := JDict ?updated] = fpl_data st"
    if "changes_of player_stats original_player = []"
  proof -
    from that have "?updated = original_player"
      by (intro update_stats_unchanged) (simp add: changes_of_empty)
    with rec show ?thesis by (metis list_update_id)
  qed
  show "\<exists>updated st'.
            import_entry player_dict (JDict player_stats) st = Inr st'
          \<and> fpl_data st' = (fpl_data st)[i := JDict updated]
          \<and> (\<forall>k. map_of updated k =
                 (if k \<in> set stats_to_update \<and> stat_differs player_stats original_player k
                  then map_of player_stats k else map_of original_player k))
          \<and> not_found_count st' = not_found_count st
          \<and> updated_count st' =
               updated_count st + (if changes_of player_stats original_player = [] then 0 else 1)
          \<and> printed st' = printed st @
               (if changes_of player_stats original_player = []
                then [No_changes_needed name]
                else [Updated name] @ take 3 (changes_of player_stats original_player)
                  @ (if length (changes_of player_stats original_player) > 3
                     then [More_changes (length (changes_of player_stats original_player) - 3)]
                     else []))"
  proof (cases "changes_of player_stats original_player = []")
    case True
    with run same fields show ?thesis
      by (intro exI [of _ ?updated]
          exI [of _ "st\<lparr>printed := printed st @ [No_changes_needed name]\<rparr>"]) simp
  next
    case False
    with run fields show ?thesis
      by (intro exI [of _ ?updated]) simp
  qed
qed

lemma strip_B: "py_strip ''B'' = ''B''"
  by (simp add: py_strip_def py_isspace_def)

lemma merge_updates_Merged:
  assumes "merge_updates fs stats_file = Inr (Merged fpl st)"
  obtains collected_stats players player_dict updates where
    "fs dataset_path = Some (Json fpl)"
    "fs stats_file = Some (Json collected_stats)"
    "py_iter fpl = Inr players"
    "build_player_dict 0 players Map.empty = Inr player_dict"
    "py_iter collected_stats = Inr updates"
    "import_entries player_dict updates (merge_start players) = Inr st"
  using assms
  by (auto simp: merge_updates_def merge_start_def
      split: option.splits file_content.splits sum.splits)

text \<open>
  The loop body, by cases: it raises unless the update is an object whose name is a
  string, and then it skips, reports a name it does not know, or merges.
\<close>

lemma import_entry_cases:
  assumes "import_entry player_dict player_stats st = Inr st'"
  obtains (skipped) ps raw_name where
      "player_stats = JDict ps" "dict_get ps ''name'' (JStr []) = JStr raw_name"
      "py_strip raw_name = []"
      "st' = st\<lparr>printed := printed st @ [Skipping_no_name]\<rparr>"
  | (not_found) ps raw_name where
      "player_stats = JDict ps" "dict_get ps ''name'' (JStr []) = JStr raw_name"
      "py_strip raw_name \<noteq> []" "player_dict (py_strip raw_name) = None"
      "st' = st\<lparr>not_found_count := not_found_count st + 1,
                 printed := printed st @ [Player_not_found (py_strip raw_name)]\<rparr>"
  | (found) ps raw_name i op where
      "player_stats = JDict ps" "dict_get ps ''name'' (JStr []) = JStr raw_name"
      "py_strip raw_name \<noteq> []" "player_dict (py_strip raw_name) = Some i"
      "i < length (fpl_data st)" "fpl_data st ! i = JDict op"
      "st' = (if changes_of ps op = []
              then st\<lparr>printed := printed st @ [No_changes_needed (py_strip raw_name)]\<rparr>
              else st\<lparr>fpl_data :=
                        (fpl_data st)[i := JDict (fst (update_stats stats_to_update ps op []))],
                      updated_count := updated_count st + 1,
                      printed := printed st @ [Updated (py_strip raw_name)]
                        @ take 3 (changes_of ps op)
                        @ (if length (changes_of ps op) > 3
                           then [More_changes (length (changes_of ps op) - 3)] else [])\<rparr>)"
proof (cases player_stats)
  case (JDict ps)
  show ?thesis
  proof (cases "dict_get ps ''name'' (JStr [])")
    case (JStr raw_name)
    show ?thesis
    proof (cases "py_strip raw_name = []")
      case True
      with JStr JDict assms show ?thesis by (intro skipped [of ps raw_name]) auto
    next
      case False
      show ?thesis
      proof (cases "player_dict (py_strip raw_name)")
        case None
        with False JStr JDict assms show ?thesis
          by (intro not_found [of ps raw_name]) (auto simp: Let_def)
      next
        case (Some i)
        show ?thesis
        proof (cases "i < length (fpl_data st)")
          case outside: False
          with Some False JStr JDict assms show ?thesis by (simp add: Let_def)
        next
          case inside: True
          show ?thesis
          proof (cases "fpl_data st ! i")
            case original: (JDict op)
            have "import_entry player_dict (JDict ps) st =
               Inr (if changes_of ps op = []
                    then st\<lparr>printed := printed st @ [No_changes_needed (py_strip raw_name)]\<rparr>
                    else st\<lparr>fpl_data :=
                              (fpl_data st)[i := JDict (fst (update_stats stats_to_update ps op []))],
                            updated_count := updated_count st + 1,
                            printed := printed st @ [Updated (py_strip raw_name)]
                              @ take 3 (changes_of ps op)
                              @ (if length (changes_of ps op) > 3
                                 then [More_changes (length (changes_of ps op) - 3)] else [])\<rparr>)"
              using JStr refl False Some inside original by (rule import_entry_found)
            with JDict assms JStr False Some inside original show ?thesis
              by (intro found [of ps raw_name i op]) auto
          qed (use inside Some False JStr JDict assms in \<open>simp_all add: Let_def\<close>)
        qed
      qed
    qed
  qed (use JDict assms in simp_all)
qed (use assms in simp_all)

text \<open>
  The lookup dictionary is built once, before the loop. It stays the dictionary of the
  dataset throughout, because an update never writes the field \<open>name\<close>.
\<close>

lemma build_player_dict_cong:
  "map name_key xs = map name_key ys \<Longrightarrow>
     build_player_dict k xs m = build_player_dict k ys m"
proof (induction xs arbitrary: ys k m)
  case Nil
  then show ?case by simp
next
  case (Cons x xs)
  then obtain y ys' where ys: "ys = y # ys'" and key: "name_key x = name_key y"
    and rest: "map name_key xs = map name_key ys'"
    by (cases ys) auto
  have step: "build_player_dict k' xs m' = build_player_dict k' ys' m'" for k' m'
    using rest by (rule Cons.IH)
  show ?case
  proof (cases x)
    case (JDict d)
    with key obtain d' where y: "y = JDict d'" and same: "map_of d ''name'' = map_of d' ''name''"
      by (cases y) auto
    show ?thesis
    proof (cases "map_of d ''name''")
      case None
      with JDict y same ys show ?thesis by simp
    next
      case (Some v)
      then have "map_of d' ''name'' = Some v" using same by simp
      with Some JDict y ys step show ?thesis by (cases v) simp_all
    qed
  qed (use key ys in \<open>cases y; simp\<close>)+
qed

lemma stats_do_not_rename: "''name'' \<notin> set stats_to_update"
  by (simp add: stats_to_update_def)

lemma import_entry_names:
  assumes "import_entry player_dict player_stats st = Inr st'"
  shows "map name_key (fpl_data st') = map name_key (fpl_data st)"
  using assms
proof (cases rule: import_entry_cases)
  case (found ps raw_name i op)
  let ?updated = "fst (update_stats stats_to_update ps op [])"
  have "map_of ?updated ''name'' = map_of op ''name''"
    using update_stats_fst [OF distinct_stats_to_update, of ps op "[]" "''name''"]
      stats_do_not_rename by simp
  then have "name_key (JDict ?updated) = name_key (fpl_data st ! i)"
    using found(6) by simp
  then have "map name_key ((fpl_data st)[i := JDict ?updated]) = map name_key (fpl_data st)"
    using found(5) by (simp add: map_update list_update_same_conv)
  with found(7) show ?thesis by (simp split: if_splits)
qed simp_all

lemma import_entries_names:
  "import_entries player_dict updates st = Inr st' \<Longrightarrow>
     map name_key (fpl_data st') = map name_key (fpl_data st)"
proof (induction updates arbitrary: st)
  case Nil
  then show ?case by simp
next
  case (Cons player_stats rest)
  then obtain st1 where one: "import_entry player_dict player_stats st = Inr st1"
    and more: "import_entries player_dict rest st1 = Inr st'"
    by (auto split: sum.splits)
  from import_entry_names [OF one] Cons.IH [OF more] show ?case by simp
qed

text \<open>The loop runs the body on every update in turn.\<close>

lemma import_entries_append:
  "import_entries player_dict (xs @ ys) st =
     (case import_entries player_dict xs st of
        Inl err \<Rightarrow> Inl err
      | Inr st1 \<Rightarrow> import_entries player_dict ys st1)"
  by (induction xs arbitrary: st) (auto split: sum.splits)

lemma import_entries_at:
  assumes "import_entries player_dict updates st = Inr final" and "k < length updates"
  obtains before after where
    "import_entries player_dict (take k updates) st = Inr before"
    "import_entry player_dict (updates ! k) before = Inr after"
    "import_entries player_dict (drop (Suc k) updates) after = Inr final"
proof -
  have "updates = take k updates @ updates ! k # drop (Suc k) updates"
    using assms(2) by (rule id_take_nth_drop)
  then have "import_entries player_dict (take k updates @ updates ! k # drop (Suc k) updates) st =
      Inr final"
    using assms(1) by simp
  then show ?thesis
    using that by (auto simp: import_entries_append split: sum.splits)
qed

text \<open>
  Claim C4, amended. In a merge that reaches its summary, every update record of the
  collected stats, in turn, is an object whose \<open>name\<close> is a string (none counts as the
  empty string), and the loop body takes the state left by the updates before it to the
  state from which the updates after it go on. If the stripped name is empty the update
  is skipped. If no record of the dataset at that point has the stripped name, the dataset
  is unchanged and the not-found count goes up by one. Otherwise, in the last record with
  that name, each stat of \<open>stats_to_update\<close> that is present in the update and differs
  (by Python's \<open>!=\<close>, a missing stat of the record read as 0) takes the update's value,
  every other field keeps its value, no other record changes, the not-found count is
  unchanged, the changes are recorded in the order of \<open>stats_to_update\<close> (the first
  three printed), and the updated count goes up by one exactly when there is a change.
\<close>

theorem merge_applies_each_update:
  assumes "merge_updates fs stats_file = Inr (Merged fpl final)"
    and "fs stats_file = Some (Json (JList updates))"
    and "k < length updates"
  shows "\<exists>players player_dict before after player_stats raw_name.
      py_iter fpl = Inr players
    \<and> build_player_dict 0 players Map.empty = Inr player_dict
    \<and> import_entries player_dict (take k updates) (merge_start players) = Inr before
    \<and> import_entry player_dict (updates ! k) before = Inr after
    \<and> import_entries player_dict (drop (Suc k) updates) after = Inr final
    \<and> updates ! k = JDict player_stats
    \<and> dict_get player_stats ''name'' (JStr []) = JStr raw_name
    \<and> (py_strip raw_name = [] \<longrightarrow>
         after = before\<lparr>printed := printed before @ [Skipping_no_name]\<rparr>)
    \<and> (py_strip raw_name \<noteq> []
         \<and> (\<forall>i < length (fpl_data before).
               \<not> has_name (py_strip raw_name) (fpl_data before ! i)) \<longrightarrow>
         after = before\<lparr>not_found_count := not_found_count before + 1,
                        printed := printed before @ [Player_not_found (py_strip raw_name)]\<rparr>)
    \<and> (\<forall>i original_player.
         py_strip raw_name \<noteq> []
         \<and> i < length (fpl_data before) \<and> fpl_data before ! i = JDict original_player
         \<and> map_of original_player ''name'' = Some (JStr (py_strip raw_name))
         \<and> (\<forall>j. i < j \<and> j < length (fpl_data before) \<longrightarrow>
               \<not> has_name (py_strip raw_name) (fpl_data before ! j)) \<longrightarrow>
         (\<exists>updated.
             fpl_data after = (fpl_data before)[i := JDict updated]
           \<and> (\<forall>key. map_of updated key =
                 (if key \<in> set stats_to_update \<and> stat_differs player_stats original_player key
                  then map_of player_stats key else map_of original_player key))
           \<and> not_found_count after = not_found_count before
           \<and> updated_count after =
               updated_count before
                 + (if changes_of player_stats original_player = [] then 0 else 1)
           \<and> printed after = printed before @
               (if changes_of player_stats original_player = []
                then [No_changes_needed (py_strip raw_name)]
                else [Updated (py_strip raw_name)]
                  @ take 3 (changes_of player_stats original_player)
                  @ (if length (changes_of player_stats original_player) > 3
                     then [More_changes (length (changes_of player_stats original_player) - 3)]
                     else []))))"
proof -
  from assms(1) obtain collected_stats players player_dict updates' where m:
    "fs stats_file = Some (Json collected_stats)"
    "py_iter fpl = Inr players"
    "build_player_dict 0 players Map.empty = Inr player_dict"
    "py_iter collected_stats = Inr updates'"
    "import_entries player_dict updates' (merge_start players) = Inr final"
    by (rule merge_updates_Merged)
  from m(1) assms(2) have "collected_stats = JList updates" by simp
  with m(4) have "updates' = updates" by simp
  with m(5) have run: "import_entries player_dict updates (merge_start players) = Inr final"
    by simp
  from run assms(3) obtain before after where chain:
    "import_entries player_dict (take k updates) (merge_start players) = Inr before"
    "import_entry player_dict (updates ! k) before = Inr after"
    "import_entries player_dict (drop (Suc k) updates) after = Inr final"
    by (rule import_entries_at)
  have "map name_key (fpl_data before) = map name_key (fpl_data (merge_start players))"
    using chain(1) by (rule import_entries_names)
  then have "map name_key (fpl_data before) = map name_key players"
    by (simp add: merge_start_def)
  then have "build_player_dict 0 (fpl_data before) Map.empty =
      build_player_dict 0 players Map.empty"
    by (rule build_player_dict_cong)
  with m(3) have dict: "build_player_dict 0 (fpl_data before) Map.empty = Inr player_dict"
    by simp
  from chain(2) obtain player_stats raw_name where u:
    "updates ! k = JDict player_stats"
    "dict_get player_stats ''name'' (JStr []) = JStr raw_name"
    by (cases rule: import_entry_cases) auto
  let ?name = "py_strip raw_name"
  have skipped: "after = before\<lparr>printed := printed before @ [Skipping_no_name]\<rparr>"
    if "?name = []"
    using chain(2) u that by (simp add: Let_def)
  have step: "((\<forall>i < length (fpl_data before). \<not> has_name ?name (fpl_data before ! i)) \<longrightarrow>
            import_entry player_dict (JDict player_stats) before =
              Inr (before\<lparr>not_found_count := not_found_count before + 1,
                          printed := printed before @ [Player_not_found ?name]\<rparr>))
    \<and> (i < length (fpl_data before) \<and> fpl_data before ! i = JDict original_player
         \<and> map_of original_player ''name'' = Some (JStr ?name)
         \<and> (\<forall>j. i < j \<and> j < length (fpl_data before) \<longrightarrow>
               \<not> has_name ?name (fpl_data before ! j)) \<longrightarrow>
        (\<exists>updated st'.
            import_entry player_dict (JDict player_stats) before = Inr st'
          \<and> fpl_data st' = (fpl_data before)[i := JDict updated]
          \<and> (\<forall>k. map_of updated k =
                 (if k \<in> set stats_to_update \<and> stat_differs player_stats original_player k
                  then map_of player_stats k else map_of original_player k))
          \<and> not_found_count st' = not_found_count before
          \<and> updated_count st' =
               updated_count before
                 + (if changes_of player_stats original_player = [] then 0 else 1)
          \<and> printed st' = printed before @
               (if changes_of player_stats original_player = []
                then [No_changes_needed ?name]
                else [Updated ?name] @ take 3 (changes_of player_stats original_player)
                  @ (if length (changes_of player_stats original_player) > 3
                     then [More_changes (length (changes_of player_stats original_player) - 3)]
                     else []))))"
    if "?name \<noteq> []" for i original_player
    using dict u(2) refl that by (rule import_entry_step)
  have not_found: "after = before\<lparr>not_found_count := not_found_count before + 1,
                        printed := printed before @ [Player_not_found ?name]\<rparr>"
    if "?name \<noteq> [] \<and> (\<forall>i < length (fpl_data before). \<not> has_name ?name (fpl_data before ! i))"
    using step [of 0 "[]"] that chain(2) u(1) by simp
  have merged: "\<exists>updated.
             fpl_data after = (fpl_data before)[i := JDict updated]
           \<and> (\<forall>key. map_of updated key =
                 (if key \<in> set stats_to_update \<and> stat_differs player_stats original_player key
                  then map_of player_stats key else map_of original_player key))
           \<and> not_found_count after = not_found_count before
           \<and> updated_count after =
               updated_count before
                 + (if changes_of player_stats original_player = [] then 0 else 1)
           \<and> printed after = printed before @
               (if changes_of player_stats original_player = []
                then [No_changes_needed ?name]
                else [Updated ?name]
                  @ take 3 (changes_of player_stats original_player)
                  @ (if length (changes_of player_stats original_player) > 3
                     then [More_changes (length (changes_of player_stats original_player) - 3)]
                     else []))"
    if "?name \<noteq> []
         \<and> i < length (fpl_data before) \<and> fpl_data before ! i = JDict original_player
         \<and> map_of original_player ''name'' = Some (JStr ?name)
         \<and> (\<forall>j. i < j \<and> j < length (fpl_data before) \<longrightarrow>
               \<not> has_name ?name (fpl_data before ! j))"
    for i original_player
  proof -
    from that have ne: "?name \<noteq> []" by simp
    from step [OF ne, of i original_player] that obtain updated st' where s:
      "import_entry player_dict (JDict player_stats) before = Inr st'"
      "fpl_data st' = (fpl_data before)[i := JDict updated]"
      "\<forall>k. map_of updated k =
         (if k \<in> set stats_to_update \<and> stat_differs player_stats original_player k
          then map_of player_stats k else map_of original_player k)"
      "not_found_count st' = not_found_count before"
      "updated_count st' =
         updated_count before + (if changes_of player_stats original_player = [] then 0 else 1)"
      "printed st' = printed before @
         (if changes_of player_stats original_player = []
          then [No_changes_needed ?name]
          else [Updated ?name] @ take 3 (changes_of player_stats original_player)
            @ (if length (changes_of player_stats original_player) > 3
               then [More_changes (length (changes_of player_stats original_player) - 3)]
               else []))"
      by blast
    from s(1) chain(2) u(1) have "st' = after" by simp
    with s(2-6) show ?thesis by blast
  qed
  from m(2,3) chain u skipped not_found merged show ?thesis by blast
qed

lemma merge_two_updates:
  "merge_updates (dataset_and_stats [record_A 1] [record_A 2, record_B 2]) ''stats.json'' =
     Inr (Merged (JList [record_A 1])
           \<lparr>fpl_data = [record_A 2], updated_count = 1, not_found_count = 1,
            printed = [Importing_header, Separator, Updated ''A'',
                       Change ''goals'' (JInt 1) (JInt 2), Player_not_found ''B'']\<rparr>)"
  by (simp add: merge_updates_def dataset_and_stats_def dataset_path_def record_A_def
      record_B_def dict_get_def strip_A strip_B stats_to_update_def Let_def)

lemma first_of_two_updates:
  "import_entries [''A'' \<mapsto> 0] (take 1 [record_A 2, record_B 2]) (merge_start [record_A 1]) =
     Inr \<lparr>fpl_data = [record_A 2], updated_count = 1, not_found_count = 0,
          printed = [Importing_header, Separator, Updated ''A'',
                     Change ''goals'' (JInt 1) (JInt 2)]\<rparr>"
  by (simp add: merge_start_def record_A_def dict_get_def strip_A stats_to_update_def Let_def)

theorem merge_applies_each_update_witness:
  "\<exists>before after.
      import_entries [''A'' \<mapsto> 0] (take 1 [record_A 2, record_B 2]) (merge_start [record_A 1]) =
        Inr before
    \<and> fpl_data before = [record_A 2] \<and> updated_count before = 1
    \<and> import_entry [''A'' \<mapsto> 0] ([record_A 2, record_B 2] ! 1) before = Inr after
    \<and> after = before\<lparr>not_found_count := not_found_count before + 1,
                     printed := printed before @ [Player_not_found ''B'']\<rparr>"
proof -
  let ?fs = "dataset_and_stats [record_A 1] [record_A 2, record_B 2]"
  let ?updates = "[record_A 2, record_B 2]"
  have h2: "?fs ''stats.json'' = Some (Json (JList ?updates))"
    by (simp add: dataset_and_stats_def dataset_path_def)
  have h3: "1 < length ?updates" by simp
  from merge_applies_each_update
    [where fs = ?fs and stats_file = "''stats.json''" and updates = ?updates and k = 1,
      OF merge_two_updates h2 h3]
  obtain players player_dict before after player_stats raw_name where w:
    "py_iter (JList [record_A 1]) = Inr players"
    "build_player_dict 0 players Map.empty = Inr player_dict"
    "import_entries player_dict (take 1 ?updates) (merge_start players) = Inr before"
    "import_entry player_dict (?updates ! 1) before = Inr after"
    "?updates ! 1 = JDict player_stats"
    "dict_get player_stats ''name'' (JStr []) = JStr raw_name"
    "py_strip raw_name \<noteq> []
       \<and> (\<forall>i < length (fpl_data before).
             \<not> has_name (py_strip raw_name) (fpl_data before ! i)) \<longrightarrow>
     after = before\<lparr>not_found_count := not_found_count before + 1,
                    printed := printed before @ [Player_not_found (py_strip raw_name)]\<rparr>"
    by (elim exE conjE)
  from w(1) have players: "players = [record_A 1]" by auto
  from w(2) have pd: "player_dict = [''A'' \<mapsto> 0]"
    unfolding players by (auto simp: record_A_def)
  from w(3) have before: "before =
      \<lparr>fpl_data = [record_A 2], updated_count = 1, not_found_count = 0,
       printed = [Importing_header, Separator, Updated ''A'',
                  Change ''goals'' (JInt 1) (JInt 2)]\<rparr>"
    unfolding players pd first_of_two_updates by auto
  from w(5) have ps: "player_stats = [(''name'', JStr ''B''), (''goals'', JInt 2)]"
    by (auto simp: record_B_def)
  from w(6) have raw: "raw_name = ''B''"
    unfolding ps by (auto simp: dict_get_def)
  have "py_strip raw_name \<noteq> []
      \<and> (\<forall>i < length (fpl_data before). \<not> has_name (py_strip raw_name) (fpl_data before ! i))"
    unfolding raw before by (simp add: strip_B record_A_def)
  with w(7) have "after = before\<lparr>not_found_count := not_found_count before + 1,
      printed := printed before @ [Player_not_found (py_strip raw_name)]\<rparr>"
    by blast
  then have after: "after = before\<lparr>not_found_count := not_found_count before + 1,
      printed := printed before @ [Player_not_found ''B'']\<rparr>"
    by (simp add: raw strip_B)
  from w(3,4) have
    "import_entries [''A'' \<mapsto> 0] (take 1 ?updates) (merge_start [record_A 1]) = Inr before"
    "import_entry [''A'' \<mapsto> 0] (?updates ! 1) before = Inr after"
    unfolding players pd by simp_all
  with before after show ?thesis
    by (intro exI [of _ before] exI [of _ after]) simp
qed

section \<open>Properties of the backup and the write\<close>









section \<open>Properties of the matcher\<close>

lemma py_in_refl: "py_in a a"
  by (cases a) simp_all

lemma py_in_Nil: "py_in [] b"
  by (cases b) simp_all

lemma normalize_name_Nil: "normalize_name [] = []"
  by (simp add: normalize_name_def)

lemma matches_any_variant:
  "variant \<in> set variants \<Longrightarrow>
     py_in (normalize_name variant) norm_field \<or> py_in norm_field (normalize_name variant) \<Longrightarrow>
     matches_any norm_field variants"
  by (induction variants) (auto simp: Let_def)

lemma matches_any_exact:
  "norm_field \<in> normalize_name ` set variants \<Longrightarrow> matches_any norm_field variants"
  using matches_any_variant py_in_refl by (metis imageE)

lemma find_row_first:
  "i < length rows \<Longrightarrow> name_matches t (rows ! i) \<and> club_matches t (rows ! i) \<Longrightarrow>
     \<forall>j < i. \<not> (name_matches t (rows ! j) \<and> club_matches t (rows ! j)) \<Longrightarrow>
     find_row t rows = Some (rows ! i)"
proof (induction rows arbitrary: i)
  case Nil
  then show ?case by simp
next
  case (Cons r rest)
  show ?case
  proof (cases i)
    case 0
    with Cons.prems(2) show ?thesis by simp
  next
    case (Suc i')
    from Cons.prems(3) Suc have first: "\<not> (name_matches t r \<and> club_matches t r)"
      by (metis nth_Cons_0 zero_less_Suc)
    have p1: "i' < length rest" using Cons.prems(1) Suc by simp
    have p2: "name_matches t (rest ! i') \<and> club_matches t (rest ! i')"
      using Cons.prems(2) Suc by simp
    have p3: "\<forall>j < i'. \<not> (name_matches t (rest ! j) \<and> club_matches t (rest ! j))"
    proof (intro allI impI)
      fix j assume "j < i'"
      then have "Suc j < i" using Suc by simp
      with Cons.prems(3)
      have "\<not> (name_matches t ((r # rest) ! Suc j) \<and> club_matches t ((r # rest) ! Suc j))"
        by blast
      then show "\<not> (name_matches t (rest ! j) \<and> club_matches t (rest ! j))" by simp
    qed
    have "find_row t rest = Some (rest ! i')" using p1 p2 p3 by (rule Cons.IH)
    with first Suc show ?thesis by auto
  qed
qed

text \<open>Below a row that passes both tests there is a first one.\<close>

lemma first_accepted:
  assumes "i < length rows" and "name_matches t (rows ! i) \<and> club_matches t (rows ! i)"
  shows "\<exists>k \<le> i. (name_matches t (rows ! k) \<and> club_matches t (rows ! k))
           \<and> (\<forall>j < k. \<not> (name_matches t (rows ! j) \<and> club_matches t (rows ! j)))"
proof -
  define accepted where "accepted k \<longleftrightarrow> name_matches t (rows ! k) \<and> club_matches t (rows ! k)" for k
  define k where "k = (LEAST k. accepted k)"
  have "accepted i" using assms(2) by (simp add: accepted_def)
  then have "accepted k" and "k \<le> i" and "\<forall>j < k. \<not> accepted j"
    unfolding k_def by (auto intro: LeastI Least_le dest: not_less_Least)
  then show ?thesis unfolding accepted_def by blast
qed

lemma found_players_set:
  "set (found_players rows target_players) =
     {r. \<exists>t \<in> set target_players. find_row t rows = Some r}"
  by (induction target_players) (auto split: option.splits)

lemma find_players_set:
  assumes "\<not> frame_empty df"
  shows "set (find_players_with_debug df target_players) =
     {r. \<exists>t \<in> set target_players. find_row t (iterrows df) = Some r}"
  using assms by (simp add: find_players_with_debug_def found_players_set)

lemma normalize_wirtz: "normalize_name ''Wirtz'' = ''wirtz''"
  by code_simp

lemma normalize_wirtzmann: "normalize_name ''Wirtzmann'' = ''wirtzmann''"
  by code_simp

lemma normalize_florian_wirtz: "normalize_name ''Florian Wirtz'' = ''florian wirtz''"
  by code_simp

lemma normalize_xhaka: "normalize_name ''Xhaka'' = ''xhaka''"
  by code_simp

lemma normalize_leverkusen: "normalize_name ''Leverkusen'' = ''leverkusen''"
  by code_simp

lemma normalize_bayer_leverkusen: "normalize_name ''Bayer Leverkusen'' = ''bayer leverkusen''"
  by code_simp

lemmas normalize_examples =
  normalize_wirtz normalize_wirtzmann normalize_florian_wirtz normalize_xhaka
  normalize_leverkusen normalize_bayer_leverkusen

lemma iterrows_wirtzmann_first: "iterrows wirtzmann_first = [row_wirtzmann, row_wirtz]"
  by (simp add: iterrows_def wirtzmann_first_def row_wirtzmann_def row_wirtz_def)

lemma iterrows_wirtz_second: "iterrows wirtz_second = [row_other, row_wirtz]"
  by (simp add: iterrows_def wirtz_second_def row_other_def row_wirtz_def)

lemma iterrows_blank_first:
  "iterrows blank_first =
     [row_blank, [(''Player'', ''Wirtz''), (''Squad'', ''Leverkusen''), (''Age'', ''22'')]]"
  by (simp add: iterrows_def blank_first_def row_blank_def)

text \<open>
  Claim C1, as stated, fails: the scan stops at the first accepted candidate. For the
  target Florian Wirtz with the alternate name Wirtz, the candidate Wirtzmann comes first
  and is accepted by containment; the later candidate Wirtz, whose normalized name and club
  equal normalized variants of the target, is not selected.
\<close>

theorem exact_match_not_selected_counterexample:
  "iterrows wirtzmann_first ! 1 = row_wirtz
   \<and> normalize_name (row_get row_wirtz ''Player'') = normalize_name ''Wirtz''
   \<and> normalize_name (row_get row_wirtz ''Squad'') = normalize_name ''Leverkusen''
   \<and> ''Wirtz'' \<in> set (primary_name wirtz # alt_names wirtz)
   \<and> ''Leverkusen'' \<in> set (club wirtz # alt_clubs wirtz)
   \<and> find_players_with_debug wirtzmann_first [wirtz] = [row_wirtzmann]
   \<and> row_wirtz \<notin> set (find_players_with_debug wirtzmann_first [wirtz])"
proof -
  have "\<not> frame_empty wirtzmann_first"
    by (simp add: frame_empty_def wirtzmann_first_def)
  then show ?thesis
    by (simp add: find_players_with_debug_def iterrows_wirtzmann_first name_matches_def
        club_matches_def row_get_def row_wirtz_def row_wirtzmann_def wirtz_def
        normalize_examples)
qed

text \<open>
  Claim C1, amended. In a frame that is not empty, a candidate whose normalized name
  equals a normalized name variant of the target and whose normalized club equals a
  normalized club variant passes both tests. The matcher then selects, for that target,
  the first candidate of the frame that passes both tests, which stands at or before that
  candidate; it is that very candidate when no earlier candidate passes both tests. The
  rows that the matcher returns are exactly the rows selected for the targets.
\<close>

theorem exact_match_selected_when_first:
  assumes "t \<in> set target_players"
    and "\<not> frame_empty df"
    and "i < length (iterrows df)"
    and "normalize_name (row_get (iterrows df ! i) ''Player'')
           \<in> normalize_name ` set (primary_name t # alt_names t)"
    and "normalize_name (row_get (iterrows df ! i) ''Squad'')
           \<in> normalize_name ` set (club t # alt_clubs t)"
  shows "name_matches t (iterrows df ! i) \<and> club_matches t (iterrows df ! i)
    \<and> (\<exists>k \<le> i. (name_matches t (iterrows df ! k) \<and> club_matches t (iterrows df ! k))
          \<and> (\<forall>j < k. \<not> (name_matches t (iterrows df ! j) \<and> club_matches t (iterrows df ! j)))
          \<and> find_row t (iterrows df) = Some (iterrows df ! k)
          \<and> iterrows df ! k \<in> set (find_players_with_debug df target_players))
    \<and> ((\<forall>j < i. \<not> (name_matches t (iterrows df ! j) \<and> club_matches t (iterrows df ! j))) \<longrightarrow>
         find_row t (iterrows df) = Some (iterrows df ! i)
         \<and> iterrows df ! i \<in> set (find_players_with_debug df target_players))
    \<and> set (find_players_with_debug df target_players) =
        {r. \<exists>t' \<in> set target_players. find_row t' (iterrows df) = Some r}"
proof -
  let ?rows = "iterrows df"
  have accepted: "name_matches t (?rows ! i) \<and> club_matches t (?rows ! i)"
    using assms(4,5) unfolding name_matches_def club_matches_def
    by (intro conjI matches_any_exact)
  have selected: "set (find_players_with_debug df target_players) =
      {r. \<exists>t' \<in> set target_players. find_row t' ?rows = Some r}"
    using assms(2) by (rule find_players_set)
  from first_accepted [OF assms(3) accepted] obtain k where k: "k \<le> i"
    "name_matches t (?rows ! k) \<and> club_matches t (?rows ! k)"
    "\<forall>j < k. \<not> (name_matches t (?rows ! j) \<and> club_matches t (?rows ! j))"
    by blast
  then have "k < length ?rows" using assms(3) by simp
  then have found: "find_row t ?rows = Some (?rows ! k)"
    using k(2,3) by (rule find_row_first)
  then have "?rows ! k \<in> set (find_players_with_debug df target_players)"
    using selected assms(1) by blast
  with k found have first: "\<exists>k \<le> i. (name_matches t (?rows ! k) \<and> club_matches t (?rows ! k))
      \<and> (\<forall>j < k. \<not> (name_matches t (?rows ! j) \<and> club_matches t (?rows ! j)))
      \<and> find_row t ?rows = Some (?rows ! k)
      \<and> ?rows ! k \<in> set (find_players_with_debug df target_players)"
    by blast
  have this_one: "find_row t ?rows = Some (?rows ! i)
      \<and> ?rows ! i \<in> set (find_players_with_debug df target_players)"
    if "\<forall>j < i. \<not> (name_matches t (?rows ! j) \<and> club_matches t (?rows ! j))"
  proof -
    have "find_row t ?rows = Some (?rows ! i)"
      using assms(3) accepted that by (rule find_row_first)
    then show ?thesis using selected assms(1) by blast
  qed
  from accepted first this_one selected show ?thesis by blast
qed

theorem exact_match_selected_when_first_witness:
  "find_row wirtz (iterrows wirtz_second) = Some row_wirtz
   \<and> row_wirtz \<in> set (find_players_with_debug wirtz_second [wirtz])"
proof -
  have h1: "wirtz \<in> set [wirtz]" by simp
  have h2: "\<not> frame_empty wirtz_second"
    by (simp add: frame_empty_def wirtz_second_def)
  have h3: "1 < length (iterrows wirtz_second)"
    by (simp add: iterrows_wirtz_second)
  have h4: "normalize_name (row_get (iterrows wirtz_second ! 1) ''Player'')
      \<in> normalize_name ` set (primary_name wirtz # alt_names wirtz)"
    by (simp add: iterrows_wirtz_second row_get_def row_wirtz_def wirtz_def)
  have h5: "normalize_name (row_get (iterrows wirtz_second ! 1) ''Squad'')
      \<in> normalize_name ` set (club wirtz # alt_clubs wirtz)"
    by (simp add: iterrows_wirtz_second row_get_def row_wirtz_def wirtz_def)
  have h6: "\<forall>j < 1. \<not> (name_matches wirtz (iterrows wirtz_second ! j)
      \<and> club_matches wirtz (iterrows wirtz_second ! j))"
    by (simp add: iterrows_wirtz_second name_matches_def row_get_def row_other_def wirtz_def
        normalize_examples)
  from exact_match_selected_when_first [OF h1 h2 h3 h4 h5] h6
  show ?thesis by (simp add: iterrows_wirtz_second)
qed

text \<open>
  Claim C6. A candidate whose name field (respectively club field) is missing, the frame
  having no such column, or is the empty string, normalizes to the empty string there;
  the empty string is contained in every normalized variant, and the candidate passes the
  name (respectively club) test of any target. With both fields missing or empty it passes
  both tests of any target, and in a frame that is not empty the matcher selects it for
  that target when no earlier row passes both tests.
\<close>

theorem empty_fields_match_any_target:
  "(''Player'' \<notin> set (columns df) \<longrightarrow> map_of (zip (columns df) cs) ''Player'' = None)
   \<and> (''Squad'' \<notin> set (columns df) \<longrightarrow> map_of (zip (columns df) cs) ''Squad'' = None)
   \<and> (map_of r ''Player'' = None \<or> map_of r ''Player'' = Some [] \<longrightarrow>
        normalize_name (row_get r ''Player'') = [] \<and> name_matches t r)
   \<and> (map_of r ''Squad'' = None \<or> map_of r ''Squad'' = Some [] \<longrightarrow>
        normalize_name (row_get r ''Squad'') = [] \<and> club_matches t r)
   \<and> (\<forall>variant. py_in [] (normalize_name variant))
   \<and> (\<not> frame_empty df \<and> t \<in> set target_players
       \<and> i < length (iterrows df) \<and> iterrows df ! i = r
       \<and> (map_of r ''Player'' = None \<or> map_of r ''Player'' = Some [])
       \<and> (map_of r ''Squad'' = None \<or> map_of r ''Squad'' = Some [])
       \<and> (\<forall>j < i. \<not> (name_matches t (iterrows df ! j) \<and> club_matches t (iterrows df ! j))) \<longrightarrow>
        find_row t (iterrows df) = Some r
        \<and> r \<in> set (find_players_with_debug df target_players))"
proof -
  have absent: "map_of (zip (columns df) cs) c = None" if "c \<notin> set (columns df)" for c
  proof -
    have "c \<notin> fst ` set (zip (columns df) cs)"
      using that by (auto dest: set_zip_leftD)
    then show ?thesis by (simp add: map_of_eq_None_iff)
  qed
  have name: "normalize_name (row_get r ''Player'') = [] \<and> name_matches t r"
    if "map_of r ''Player'' = None \<or> map_of r ''Player'' = Some []"
    using that by (auto simp: row_get_def normalize_name_Nil name_matches_def py_in_Nil)
  have squad: "normalize_name (row_get r ''Squad'') = [] \<and> club_matches t r"
    if "map_of r ''Squad'' = None \<or> map_of r ''Squad'' = Some []"
    using that by (auto simp: row_get_def normalize_name_Nil club_matches_def py_in_Nil)
  have selected: "find_row t (iterrows df) = Some r
      \<and> r \<in> set (find_players_with_debug df target_players)"
    if "\<not> frame_empty df" and "t \<in> set target_players"
      and "i < length (iterrows df)" and "iterrows df ! i = r"
      and "map_of r ''Player'' = None \<or> map_of r ''Player'' = Some []"
      and "map_of r ''Squad'' = None \<or> map_of r ''Squad'' = Some []"
      and "\<forall>j < i. \<not> (name_matches t (iterrows df ! j) \<and> club_matches t (iterrows df ! j))"
  proof -
    have "name_matches t (iterrows df ! i) \<and> club_matches t (iterrows df ! i)"
      using name [OF that(5)] squad [OF that(6)] that(4) by simp
    with that(3) have "find_row t (iterrows df) = Some (iterrows df ! i)"
      using that(7) by (rule find_row_first)
    then show ?thesis
      using find_players_set [OF that(1)] that(2,4) by auto
  qed
  from absent name squad selected py_in_Nil show ?thesis by blast
qed

theorem empty_fields_match_any_target_witness:
  "normalize_name (row_get row_blank ''Player'') = []
   \<and> normalize_name (row_get row_blank ''Squad'') = []
   \<and> find_row wirtz (iterrows blank_first) = Some row_blank
   \<and> row_blank \<in> set (find_players_with_debug blank_first [wirtz])"
proof -
  have h1: "map_of row_blank ''Player'' = None \<or> map_of row_blank ''Player'' = Some []"
    by (simp add: row_blank_def)
  have h2: "map_of row_blank ''Squad'' = None \<or> map_of row_blank ''Squad'' = Some []"
    by (simp add: row_blank_def)
  have h3: "\<not> frame_empty blank_first \<and> wirtz \<in> set [wirtz]
      \<and> 0 < length (iterrows blank_first) \<and> iterrows blank_first ! 0 = row_blank
      \<and> (\<forall>j < 0. \<not> (name_matches wirtz (iterrows blank_first ! j)
            \<and> club_matches wirtz (iterrows blank_first ! j)))"
    by (simp add: frame_empty_def iterrows_blank_first) (simp add: blank_first_def)
  from empty_fields_match_any_target
    [where df = blank_first and r = row_blank and t = wirtz and i = 0
       and target_players = "[wirtz]"] h1 h2 h3
  show ?thesis by blast
qed

end
